theory Spec2Isabelle
  imports Main "HOL-Library.Char_ord" "HOL-Library.List_Lexorder"
    "HOL-Library.Product_Lexorder" "HOL-Library.Option_ord" "HOL-Library.Multiset"
begin

section \<open>Strings and bytes\<close>

text \<open>
  A Python \<^verbatim>\<open>str\<close> is a \<^typ>\<open>string\<close>, one \<^typ>\<open>char\<close> per character, so
  \<^const>\<open>length\<close> is Python's \<^verbatim>\<open>len\<close>. The alphabet of the model is the 256 characters
  of \<^typ>\<open>char\<close> (the code points U+0000 to U+00FF): exactly the strings a Latin-1 decoded
  HTTP header can hold. The order on \<^typ>\<open>string\<close> is the lexicographic order on code
  points, which is how SQLite's BINARY collation compares TEXT values.
  A \<^verbatim>\<open>bytes\<close> value is a list of bytes, again written as \<^typ>\<open>char\<close>s.
\<close>

type_synonym bytes = string

section \<open>The messages table\<close>

text \<open>
  \<^verbatim>\<open>INIT_SCRIPT\<close> of app/models.py creates one table:
  \<^verbatim>\<open>
  CREATE TABLE IF NOT EXISTS messages (
      message_id TEXT PRIMARY KEY,
      from_msisdn TEXT NOT NULL,
      to_msisdn TEXT NOT NULL,
      ts TEXT NOT NULL,
      text TEXT,
      created_at TEXT NOT NULL
  );\<close>
  A row holds a string in each NOT NULL column. The column \<^verbatim>\<open>text\<close> may hold NULL, and
  so may \<^verbatim>\<open>message_id\<close>: SQLite admits NULL in a PRIMARY KEY column of a rowid table, and
  the uniqueness of the key is among the values that are not NULL. NULL is \<^const>\<open>None\<close>.
  The table is the list of its rows in insertion (rowid) order.
\<close>

record message_row =
  message_id :: "string option"
  from_msisdn :: string
  to_msisdn :: string
  ts :: string
  text_col :: "string option"
  created_at :: string

type_synonym table = "message_row list"

text \<open>
  The exceptions of the \<^verbatim>\<open>sqlite3\<close> module that the code can meet. An
  \<^verbatim>\<open>IntegrityError\<close> names the constraint that failed.
\<close>

datatype constraint_failure = NOT_NULL string | UNIQUE string

datatype sqlite_error =
  IntegrityError constraint_failure
  | OperationalError string
  | ProgrammingError string

text \<open>
  The dictionary handed to \<^verbatim>\<open>insert_message\<close>: a key is absent (\<^const>\<open>None\<close>), or bound
  to a value, which is Python's \<^verbatim>\<open>None\<close> or a \<^verbatim>\<open>str\<close>. (Values of other Python
  types are outside the model.)
\<close>

type_synonym msg_dict = "string \<rightharpoonup> string option"

text \<open>
  The statement of \<^verbatim>\<open>insert_message\<close>:
  \<^verbatim>\<open>
  INSERT INTO messages (message_id, from_msisdn, to_msisdn, ts, text, created_at)
  VALUES (:message_id, :from, :to, :ts, :text, :created_at)\<close>
  Binding the named parameters raises \<^verbatim>\<open>ProgrammingError\<close> when the dictionary lacks one.
  The engine then checks the NOT NULL constraints, then the primary key, and appends the
  row.
\<close>

definition sql_insert :: "table \<Rightarrow> msg_dict \<Rightarrow> sqlite_error + table" where
  "sql_insert tbl d =
     (case find (\<lambda>k. d k = None)
             [''message_id'', ''from'', ''to'', ''ts'', ''text'', ''created_at''] of
        Some k \<Rightarrow>
          Inl (ProgrammingError (''You did not supply a value for binding parameter :'' @ k @ ''.''))
      | None \<Rightarrow>
          (case the (d ''from'') of
             None \<Rightarrow> Inl (IntegrityError (NOT_NULL ''messages.from_msisdn''))
           | Some f \<Rightarrow>
          (case the (d ''to'') of
             None \<Rightarrow> Inl (IntegrityError (NOT_NULL ''messages.to_msisdn''))
           | Some t \<Rightarrow>
          (case the (d ''ts'') of
             None \<Rightarrow> Inl (IntegrityError (NOT_NULL ''messages.ts''))
           | Some s \<Rightarrow>
          (case the (d ''created_at'') of
             None \<Rightarrow> Inl (IntegrityError (NOT_NULL ''messages.created_at''))
           | Some c \<Rightarrow>
          (case the (d ''message_id'') of
             None \<Rightarrow>
               Inr (tbl @ [\<lparr>message_id = None, from_msisdn = f, to_msisdn = t, ts = s,
                            text_col = the (d ''text''), created_at = c\<rparr>])
           | Some m \<Rightarrow>
               if Some m \<in> set (map message_id tbl)
               then Inl (IntegrityError (UNIQUE ''messages.message_id''))
               else Inr (tbl @ [\<lparr>message_id = Some m, from_msisdn = f, to_msisdn = t, ts = s,
                                 text_col = the (d ''text''), created_at = c\<rparr>])))))))"

text \<open>
  Opening the database file or running a statement can fail for reasons outside the
  program (the file cannot be opened, the database is locked, a disk I/O error). Such a
  fault is an input of the model: \<^term>\<open>Some msg\<close> makes the engine raise
  \<^term>\<open>OperationalError msg\<close> and leaves the table as it was.
\<close>

type_synonym fault = "string option"

definition execute_insert :: "fault \<Rightarrow> table \<Rightarrow> msg_dict \<Rightarrow> sqlite_error + table" where
  "execute_insert flt tbl d =
     (case flt of Some msg \<Rightarrow> Inl (OperationalError msg) | None \<Rightarrow> sql_insert tbl d)"

text \<open>
  app/storage.py:
  \<^verbatim>\<open>
  async def insert_message(msg_data: dict) -> bool:
      """
      Returns True if inserted, False if duplicate (idempotent).
      """
      db_path = settings.DATABASE_URL.replace("sqlite:///", "")
      try:
          async with aiosqlite.connect(db_path) as db:
              await db.execute("""INSERT ...""", msg_data)
              await db.commit()
              return True
      except aiosqlite.IntegrityError:
          return False\<close>
  The result is the returned boolean with the table after the call, or the exception
  that leaves the function.
\<close>

definition insert_message :: "fault \<Rightarrow> table \<Rightarrow> msg_dict \<Rightarrow> sqlite_error + bool \<times> table" where
  "insert_message flt tbl msg_data =
     (case execute_insert flt tbl msg_data of
        Inr tbl' \<Rightarrow> Inr (True, tbl')
      | Inl (IntegrityError c) \<Rightarrow> Inr (False, tbl)
      | Inl e \<Rightarrow> Inl e)"

section \<open>The validated payload\<close>

text \<open>
  The fields of \<^verbatim>\<open>WebhookPayload\<close> (app/main.py and app/models.py), all of type
  \<^verbatim>\<open>str\<close>; \<^verbatim>\<open>from_\<close> has the alias \<^verbatim>\<open>from\<close>.
\<close>

record WebhookPayload =
  p_message_id :: string
  p_from :: string
  p_to :: string
  p_ts :: string
  p_text :: string

text \<open>
  The dictionary \<^verbatim>\<open>row_data\<close> that the webhook builds from the payload and the time of
  the request (app/main.py, lines 106 to 113).
\<close>

definition row_data :: "WebhookPayload \<Rightarrow> string \<Rightarrow> msg_dict" where
  "row_data payload now =
     [''message_id'' \<mapsto> Some (p_message_id payload),
      ''from'' \<mapsto> Some (p_from payload),
      ''to'' \<mapsto> Some (p_to payload),
      ''ts'' \<mapsto> Some (p_ts payload),
      ''text'' \<mapsto> Some (p_text payload),
      ''created_at'' \<mapsto> Some now]"

text \<open>The row that a successful insert of \<^term>\<open>row_data payload now\<close> stores.\<close>

definition stored_row :: "WebhookPayload \<Rightarrow> string \<Rightarrow> message_row" where
  "stored_row payload now =
     \<lparr>message_id = Some (p_message_id payload), from_msisdn = p_from payload,
      to_msisdn = p_to payload, ts = p_ts payload, text_col = Some (p_text payload),
      created_at = now\<rparr>"

section \<open>Field patterns\<close>

text \<open>
  The \<^verbatim>\<open>pattern\<close> constraints of \<^verbatim>\<open>WebhookPayload\<close> are regular expressions, which
  pydantic hands to its regex engine. The expressions the source uses are built from
  literal characters, the class \<^verbatim>\<open>\d\<close>, the repetitions \<^verbatim>\<open>+\<close> and \<^verbatim>\<open>{n}\<close> and
  concatenation, anchored at both ends by \<^verbatim>\<open>^\<close> and \<^verbatim>\<open>$\<close>, so a string satisfies the
  constraint when the whole of it matches. In the alphabet of the model \<^verbatim>\<open>\d\<close> is the
  ten digits \<^verbatim>\<open>0\<close> to \<^verbatim>\<open>9\<close>.
\<close>

definition is_digit :: "char \<Rightarrow> bool" where
  "is_digit c = (CHR ''0'' \<le> c \<and> c \<le> CHR ''9'')"

datatype rx = Zero | One | Chr char | Digit | Alt rx rx | Seq rx rx | Star rx

text \<open>\<^verbatim>\<open>r{n}\<close> and \<^verbatim>\<open>r+\<close>.\<close>

fun rep :: "nat \<Rightarrow> rx \<Rightarrow> rx" where
  "rep 0 r = One"
| "rep (Suc n) r = Seq r (rep n r)"

definition one_or_more :: "rx \<Rightarrow> rx" where
  "one_or_more r = Seq r (Star r)"

text \<open>The matcher works by derivatives: it consumes the string one character at a time.\<close>

fun nullable :: "rx \<Rightarrow> bool" where
  "nullable Zero = False"
| "nullable One = True"
| "nullable (Chr a) = False"
| "nullable Digit = False"
| "nullable (Alt r s) = (nullable r \<or> nullable s)"
| "nullable (Seq r s) = (nullable r \<and> nullable s)"
| "nullable (Star r) = True"

fun deriv :: "char \<Rightarrow> rx \<Rightarrow> rx" where
  "deriv c Zero = Zero"
| "deriv c One = Zero"
| "deriv c (Chr a) = (if a = c then One else Zero)"
| "deriv c Digit = (if is_digit c then One else Zero)"
| "deriv c (Alt r s) = Alt (deriv c r) (deriv c s)"
| "deriv c (Seq r s) =
     (if nullable r then Alt (Seq (deriv c r) s) (deriv c s) else Seq (deriv c r) s)"
| "deriv c (Star r) = Seq (deriv c r) (Star r)"

definition fullmatch :: "rx \<Rightarrow> string \<Rightarrow> bool" where
  "fullmatch r s = nullable (foldl (\<lambda>r c. deriv c r) r s)"

text \<open>\<^verbatim>\<open>^\+\d+$\<close>, the pattern of \<^verbatim>\<open>from\<close> and \<^verbatim>\<open>to\<close>.\<close>

definition msisdn_pattern :: rx where
  "msisdn_pattern = Seq (Chr CHR ''+'') (one_or_more Digit)"

text \<open>\<^verbatim>\<open>^\d{4}-\d{2}-\d{2}T\d{2}:\d{2}:\d{2}Z$\<close>, the pattern of \<^verbatim>\<open>ts\<close>.\<close>

definition ts_pattern :: rx where
  "ts_pattern =
     Seq (rep 4 Digit) (Seq (Chr CHR ''-'') (Seq (rep 2 Digit) (Seq (Chr CHR ''-'')
    (Seq (rep 2 Digit) (Seq (Chr CHR ''T'') (Seq (rep 2 Digit) (Seq (Chr CHR '':'')
    (Seq (rep 2 Digit) (Seq (Chr CHR '':'') (Seq (rep 2 Digit) (Chr CHR ''Z'')))))))))))"

text \<open>
  What the expressions mean: the set of strings each denotes. The matcher is proved to
  decide membership in it (\<open>fullmatch_iff\<close> below).
\<close>

inductive_set star :: "string set \<Rightarrow> string set" for A :: "string set" where
  star_nil: "[] \<in> star A"
| star_app: "u \<in> A \<Longrightarrow> v \<in> star A \<Longrightarrow> u @ v \<in> star A"

fun lang :: "rx \<Rightarrow> string set" where
  "lang Zero = {}"
| "lang One = {[]}"
| "lang (Chr a) = {[a]}"
| "lang Digit = {[c] | c. is_digit c}"
| "lang (Alt r s) = lang r \<union> lang s"
| "lang (Seq r s) = {u @ v | u v. u \<in> lang r \<and> v \<in> lang s}"
| "lang (Star r) = star (lang r)"


definition ts_shape :: "(char \<Rightarrow> bool) list" where
  "ts_shape =
     [is_digit, is_digit, is_digit, is_digit, (=) CHR ''-'', is_digit, is_digit,
      (=) CHR ''-'', is_digit, is_digit, (=) CHR ''T'', is_digit, is_digit,
      (=) CHR '':'', is_digit, is_digit, (=) CHR '':'', is_digit, is_digit, (=) CHR ''Z'']"

definition is_ts :: "string \<Rightarrow> bool" where
  "is_ts s = list_all2 (\<lambda>p c. p c) ts_shape s"

section \<open>JSON values and payload validation\<close>

text \<open>
  What \<^verbatim>\<open>json.loads\<close> returns: \<^verbatim>\<open>None\<close>, a \<^verbatim>\<open>bool\<close>, an \<^verbatim>\<open>int\<close>, a
  \<^verbatim>\<open>float\<close> (kept by its literal, since no code reads it), a \<^verbatim>\<open>str\<close>, a
  \<^verbatim>\<open>list\<close> or a \<^verbatim>\<open>dict\<close> with string keys. A dictionary is the list of its
  items; a key is looked up with \<^const>\<open>map_of\<close>.
\<close>

datatype json =
  JNull | JBool bool | JInt int | JFloat string | JStr string
  | JList "json list" | JDict "(string \<times> json) list"

fun type_name :: "json \<Rightarrow> string" where
  "type_name JNull = ''NoneType''"
| "type_name (JBool b) = ''bool''"
| "type_name (JInt i) = ''int''"
| "type_name (JFloat f) = ''float''"
| "type_name (JStr s) = ''str''"
| "type_name (JList xs) = ''list''"
| "type_name (JDict kvs) = ''dict''"

text \<open>
  The exceptions of \<^verbatim>\<open>request.json()\<close>: \<^verbatim>\<open>JSONDecodeError(msg, doc, pos)\<close> with its
  line and column, and \<^verbatim>\<open>UnicodeDecodeError(encoding, object, start, end, reason)\<close> for a
  body that is not text.
\<close>

datatype json_error =
  JSONDecodeError string nat nat nat
  | UnicodeDecodeError string bytes nat nat string

text \<open>The error types of pydantic's string validator and of a required field.\<close>

datatype field_error =
  Missing | StringType | StringTooShort nat | StringTooLong nat | StringPatternMismatch

text \<open>Every exception that the handlers of app/main.py can meet.\<close>

datatype exc =
  JsonError json_error
  | TypeError string
  | ValidationError "(string \<times> field_error) list"
  | SqliteError sqlite_error
  | OverflowError string
  | HTTPException nat string
  | RequestValidationError "(string \<times> string) list"

text \<open>
  \<^verbatim>\<open>Field(..., min_length=, max_length=, pattern=)\<close> on a \<^verbatim>\<open>str\<close> field: the value must
  be a string, then the length bounds are checked, then the pattern.
\<close>

fun check_min :: "nat option \<Rightarrow> string \<Rightarrow> field_error option" where
  "check_min None s = None"
| "check_min (Some n) s = (if length s < n then Some (StringTooShort n) else None)"

fun check_max :: "nat option \<Rightarrow> string \<Rightarrow> field_error option" where
  "check_max None s = None"
| "check_max (Some n) s = (if n < length s then Some (StringTooLong n) else None)"

fun check_pattern :: "rx option \<Rightarrow> string \<Rightarrow> field_error option" where
  "check_pattern None s = None"
| "check_pattern (Some r) s = (if fullmatch r s then None else Some StringPatternMismatch)"

definition validate_str :: "nat option \<Rightarrow> nat option \<Rightarrow> rx option \<Rightarrow> json \<Rightarrow> field_error + string" where
  "validate_str min_length max_length pattern v =
     (case v of
        JStr s \<Rightarrow>
          (case check_min min_length s of
             Some e \<Rightarrow> Inl e
           | None \<Rightarrow>
          (case check_max max_length s of
             Some e \<Rightarrow> Inl e
           | None \<Rightarrow>
          (case check_pattern pattern s of
             Some e \<Rightarrow> Inl e
           | None \<Rightarrow> Inr s)))
      | _ \<Rightarrow> Inl StringType)"

text \<open>
  A field of the model, looked up under its alias in the keyword arguments: a required
  field (\<^verbatim>\<open>...\<close>) that is absent is an error, an optional one takes its default, which is
  not validated.
\<close>

definition field :: "(string \<times> json) list \<Rightarrow> string \<Rightarrow> string option \<Rightarrow> (json \<Rightarrow> field_error + string)
    \<Rightarrow> field_error + string" where
  "field kwargs alias dflt validate =
     (case map_of kwargs alias of
        Some v \<Rightarrow> validate v
      | None \<Rightarrow> (case dflt of None \<Rightarrow> Inl Missing | Some d \<Rightarrow> Inr d))"

fun errors_of :: "(string \<times> (field_error + string)) list \<Rightarrow> (string \<times> field_error) list" where
  "errors_of [] = []"
| "errors_of ((loc, Inl e) # rs) = (loc, e) # errors_of rs"
| "errors_of ((loc, Inr v) # rs) = errors_of rs"

text \<open>
  \<^verbatim>\<open>
  class WebhookPayload(BaseModel):
      message_id: str = Field(..., min_length=1)
      from_: str = Field(..., alias="from", pattern=r"^\+\d+$")
      to: str = Field(..., pattern=r"^\+\d+$")
      ts: str = Field(..., pattern=r"^\d{4}-\d{2}-\d{2}T\d{2}:\d{2}:\d{2}Z$")
      text: str = Field(default="", max_length=4096)\<close>
  \<^verbatim>\<open>WebhookPayload(**kwargs)\<close> validates every field, ignores the keys that name no
  field, and raises one \<^verbatim>\<open>ValidationError\<close> with the errors of all fields.
\<close>

definition WebhookPayload_init :: "(string \<times> json) list \<Rightarrow> exc + WebhookPayload" where
  "WebhookPayload_init kwargs =
     (let message_id_r = field kwargs ''message_id'' None (validate_str (Some 1) None None);
          from_r = field kwargs ''from'' None (validate_str None None (Some msisdn_pattern));
          to_r = field kwargs ''to'' None (validate_str None None (Some msisdn_pattern));
          ts_r = field kwargs ''ts'' None (validate_str None None (Some ts_pattern));
          text_r = field kwargs ''text'' (Some []) (validate_str None (Some 4096) None)
      in case (message_id_r, from_r, to_r, ts_r, text_r) of
           (Inr m, Inr f, Inr t, Inr s, Inr x) \<Rightarrow>
             Inr \<lparr>p_message_id = m, p_from = f, p_to = t, p_ts = s, p_text = x\<rparr>
         | _ \<Rightarrow>
             Inl (ValidationError (errors_of
               [(''message_id'', message_id_r), (''from'', from_r), (''to'', to_r),
                (''ts'', ts_r), (''text'', text_r)])))"

text \<open>
  The two statements of the webhook's \<^verbatim>\<open>try\<close> block:
  \<^verbatim>\<open>
  data = await request.json()
  payload = WebhookPayload(**data)\<close>
  The parser \<^verbatim>\<open>json.loads\<close> is a parameter of the model. \<^verbatim>\<open>**data\<close> raises
  \<^verbatim>\<open>TypeError\<close> when \<^verbatim>\<open>data\<close> is not a mapping.
\<close>

definition parse_payload :: "(bytes \<Rightarrow> json_error + json) \<Rightarrow> bytes \<Rightarrow> exc + WebhookPayload" where
  "parse_payload loads body_bytes =
     (case loads body_bytes of
        Inl e \<Rightarrow> Inl (JsonError e)
      | Inr data \<Rightarrow>
          (case data of
             JDict kwargs \<Rightarrow> WebhookPayload_init kwargs
           | _ \<Rightarrow>
             Inl (TypeError (''app.main.WebhookPayload() argument after ** must be a mapping, not ''
                    @ type_name data))))"

section \<open>The text of an exception\<close>

text \<open>
  \<^verbatim>\<open>str(e)\<close>, which the webhook sends as the detail of a 422 response. Numbers are
  written in decimal, a byte as two hexadecimal digits.
\<close>

definition digit_char :: "nat \<Rightarrow> char" where
  "digit_char n = char_of (48 + n)"

function str_nat :: "nat \<Rightarrow> string" where
  "str_nat n = (if n < 10 then [digit_char n] else str_nat (n div 10) @ [digit_char (n mod 10)])"
  by pat_completeness auto
termination
  by (relation "measure (\<lambda>n. n)") auto

definition hex_digit :: "nat \<Rightarrow> char" where
  "hex_digit n = (if n < 10 then char_of (48 + n) else char_of (87 + n))"

definition hex_byte :: "char \<Rightarrow> string" where
  "hex_byte b = [hex_digit (of_char b div 16), hex_digit (of_char b mod 16)]"

definition newline :: char where
  "newline = CHR 0x0A"

text \<open>
  \<^verbatim>\<open>JSONDecodeError\<close> formats \<^verbatim>\<open>'%s: line %d column %d (char %d)'\<close>;
  \<^verbatim>\<open>UnicodeDecodeError\<close> names the byte when the range is one byte inside the object.
\<close>

fun str_json_error :: "json_error \<Rightarrow> string" where
  "str_json_error (JSONDecodeError msg lineno colno pos) =
     msg @ '': line '' @ str_nat lineno @ '' column '' @ str_nat colno
       @ '' (char '' @ str_nat pos @ '')''"
| "str_json_error (UnicodeDecodeError encoding obj start end' reason) =
     (if start < length obj \<and> end' = start + 1
      then [CHR 0x27] @ encoding @ [CHR 0x27] @ '' codec can't decode byte 0x''
             @ hex_byte (obj ! start) @ '' in position '' @ str_nat start @ '': '' @ reason
      else [CHR 0x27] @ encoding @ [CHR 0x27] @ '' codec can't decode bytes in position ''
             @ str_nat start @ ''-'' @ str_nat (end' - 1) @ '': '' @ reason)"

text \<open>The messages of pydantic's error types.\<close>

fun field_error_msg :: "field_error \<Rightarrow> string" where
  "field_error_msg Missing = ''Field required''"
| "field_error_msg StringType = ''Input should be a valid string''"
| "field_error_msg (StringTooShort n) =
     ''String should have at least '' @ str_nat n
       @ (if n = 1 then '' character'' else '' characters'')"
| "field_error_msg (StringTooLong n) =
     ''String should have at most '' @ str_nat n
       @ (if n = 1 then '' character'' else '' characters'')"
| "field_error_msg StringPatternMismatch = ''String should match pattern''"

text \<open>
  A \<^verbatim>\<open>ValidationError\<close> prints the number of errors and the model's name, then each
  error's location and message. (Pydantic adds to each message the error type, the input
  and a link to its documentation, and the pattern to a mismatch; the model leaves them
  out.)
\<close>

fun str_sqlite_error :: "sqlite_error \<Rightarrow> string" where
  "str_sqlite_error (IntegrityError (NOT_NULL col)) = ''NOT NULL constraint failed: '' @ col"
| "str_sqlite_error (IntegrityError (UNIQUE col)) = ''UNIQUE constraint failed: '' @ col"
| "str_sqlite_error (OperationalError msg) = msg"
| "str_sqlite_error (ProgrammingError msg) = msg"

fun str_exc :: "exc \<Rightarrow> string" where
  "str_exc (JsonError e) = str_json_error e"
| "str_exc (TypeError msg) = msg"
| "str_exc (ValidationError errs) =
     str_nat (length errs)
       @ (if length errs = 1 then '' validation error'' else '' validation errors'')
       @ '' for WebhookPayload''
       @ concat (map (\<lambda>(loc, e). [newline] @ loc @ [newline] @ ''  '' @ field_error_msg e) errs)"
| "str_exc (SqliteError e) = str_sqlite_error e"
| "str_exc (OverflowError msg) = msg"
| "str_exc (HTTPException status detail) = str_nat status @ '': '' @ detail"
| "str_exc (RequestValidationError errs) =
     concat (map (\<lambda>(loc, msg). loc @ '': '' @ msg @ [newline]) errs)"

section \<open>The signature\<close>

text \<open>
  \<^verbatim>\<open>str.encode()\<close>: UTF-8, one byte for a character below 128 and two for the others of
  the alphabet.
\<close>

definition encode :: "string \<Rightarrow> bytes" where
  "encode s =
     concat (map (\<lambda>c. if of_char c < (128 :: nat) then [c]
                        else [char_of (192 + of_char c div 64 :: nat),
                              char_of (128 + of_char c mod 64 :: nat)]) s)"

text \<open>\<^verbatim>\<open>HMAC.hexdigest()\<close>: two lower-case hexadecimal digits for each byte of the digest.\<close>

definition hexdigest :: "bytes \<Rightarrow> string" where
  "hexdigest digest = concat (map hex_byte digest)"

text \<open>
  \<^verbatim>\<open>hmac.compare_digest(a, b)\<close>. Python's documentation: \<^emph>\<open>a and b must both be of the
  same type: either str (ASCII only, as e.g. returned by HMAC.hexdigest()), or a
  bytes-like object\<close>. On two \<^verbatim>\<open>str\<close> arguments it compares them when both are ASCII
  and raises \<^verbatim>\<open>TypeError\<close> when one of them has a character outside ASCII. The handler
  passes the header value, which the framework decodes from the bytes of the request as
  Latin-1, so characters outside ASCII can occur in it.
\<close>

definition is_ascii :: "string \<Rightarrow> bool" where
  "is_ascii s = list_all (\<lambda>c. of_char c < (128 :: nat)) s"

definition compare_digest :: "string \<Rightarrow> string \<Rightarrow> exc + bool" where
  "compare_digest a b =
     (if is_ascii a \<and> is_ascii b then Inr (a = b)
      else Inl (TypeError ''comparing strings with non-ASCII characters is not supported''))"

section \<open>Requests, responses and the state of the application\<close>

text \<open>
  The libraries the webhook calls that are not code of the repository, as parameters:
  the digest \<^verbatim>\<open>hmac.new(key, msg, hashlib.sha256).digest()\<close> and the parser
  \<^verbatim>\<open>json.loads\<close>.
\<close>

record libs =
  hmac_sha256 :: "bytes \<Rightarrow> bytes \<Rightarrow> bytes"
  json_loads :: "bytes \<Rightarrow> json_error + json"

text \<open>app/config.py.\<close>

record Settings =
  WEBHOOK_SECRET :: string
  DATABASE_URL :: string
  LOG_LEVEL :: string

text \<open>
  A request to \<^verbatim>\<open>/webhook\<close>: the header \<^verbatim>\<open>X-Signature\<close> (absent, or its value decoded
  as Latin-1) and the raw body. What the handler reads of the world: the text of
  \<^verbatim>\<open>datetime.datetime.utcnow().isoformat()\<close> and the fault, if any, of the storage engine.
\<close>

record request =
  x_signature :: "string option"
  raw_body :: bytes

record request_env =
  utcnow_isoformat :: string
  storage_fault :: fault

datatype content = JSON json | PlainText string

record response =
  status_code :: nat
  content :: content

text \<open>
  The state that requests share: the table, and the counter \<^verbatim>\<open>WEBHOOK_OUTCOMES\<close> of
  app/metrics.py, kept as the list of the labels counted so far.
\<close>

record app_state =
  messages :: table
  webhook_outcomes :: "string list"

definition inc_outcome :: "string \<Rightarrow> app_state \<Rightarrow> app_state" where
  "inc_outcome result st = st\<lparr>webhook_outcomes := webhook_outcomes st @ [result]\<rparr>"

definition invalid_signature_response :: response where
  "invalid_signature_response =
     \<lparr>status_code = 401, content = JSON (JDict [(''detail'', JStr ''invalid signature'')])\<rparr>"

definition ok_response :: response where
  "ok_response = \<lparr>status_code = 200, content = JSON (JDict [(''status'', JStr ''ok'')])\<rparr>"

section \<open>POST /webhook\<close>

text \<open>\<^verbatim>\<open>expected_sig\<close> of the handler.\<close>

definition expected_sig :: "libs \<Rightarrow> Settings \<Rightarrow> bytes \<Rightarrow> string" where
  "expected_sig lb settings body_bytes =
     hexdigest (hmac_sha256 lb (encode (WEBHOOK_SECRET settings)) body_bytes)"

text \<open>
  The handler \<^verbatim>\<open>webhook\<close> of app/main.py (lines 72 to 131). It returns a response or
  raises an exception, and leaves a state. The log record that it attaches to the request
  is not modelled.
\<close>

definition webhook :: "libs \<Rightarrow> Settings \<Rightarrow> request_env \<Rightarrow> app_state \<Rightarrow> request
    \<Rightarrow> (exc + response) \<times> app_state" where
  "webhook lb settings env st req =
     (let body_bytes = raw_body req in
      case x_signature req of
        None \<Rightarrow> (Inr invalid_signature_response, inc_outcome ''invalid_signature'' st)
      | Some sig \<Rightarrow>
          if sig = [] then (Inr invalid_signature_response, inc_outcome ''invalid_signature'' st)
          else
            (case compare_digest sig (expected_sig lb settings body_bytes) of
               Inl e \<Rightarrow> (Inl e, st)
             | Inr False \<Rightarrow>
                 (Inr invalid_signature_response, inc_outcome ''invalid_signature'' st)
             | Inr True \<Rightarrow>
                 (case parse_payload (json_loads lb) body_bytes of
                    Inl e \<Rightarrow>
                      (Inl (HTTPException 422 (str_exc e)), inc_outcome ''validation_error'' st)
                  | Inr payload \<Rightarrow>
                      (case insert_message (storage_fault env) (messages st)
                              (row_data payload (utcnow_isoformat env @ ''Z'')) of
                         Inl e \<Rightarrow> (Inl (SqliteError e), st)
                       | Inr (inserted, tbl') \<Rightarrow>
                           (Inr ok_response,
                            inc_outcome (if inserted then ''created'' else ''duplicate'')
                              (st\<lparr>messages := tbl'\<rparr>))))))"

text \<open>
  What the framework sends for the outcome of a handler: the response it returned, the
  status and detail of an \<^verbatim>\<open>HTTPException\<close>, and for any other exception the plain text
  response 500 of the server's error middleware.
\<close>

fun serve :: "exc + response \<Rightarrow> response" where
  "serve (Inr r) = r"
| "serve (Inl (HTTPException status detail)) =
     \<lparr>status_code = status, content = JSON (JDict [(''detail'', JStr detail)])\<rparr>"
| "serve (Inl e) = \<lparr>status_code = 500, content = PlainText ''Internal Server Error''\<rparr>"

definition post_webhook :: "libs \<Rightarrow> Settings \<Rightarrow> request_env \<Rightarrow> app_state \<Rightarrow> request
    \<Rightarrow> response \<times> app_state" where
  "post_webhook lb settings env st req =
     (case webhook lb settings env st req of (out, st') \<Rightarrow> (serve out, st'))"

section \<open>GET /messages\<close>

text \<open>
  SQLite's \<^verbatim>\<open>LIKE\<close>, as \<^verbatim>\<open>text LIKE :q_val\<close> uses it (no \<^verbatim>\<open>ESCAPE\<close>): in the
  pattern \<^verbatim>\<open>%\<close> matches any run of characters and \<^verbatim>\<open>_\<close> any one character; any other
  character matches itself, and two ASCII letters match when they differ in case only.
  Both strings are read up to their first NUL character. (The limit that SQLite puts on
  the length of a pattern is part of the evaluation of a condition, below.)
\<close>

definition ascii_lower :: "char \<Rightarrow> char" where
  "ascii_lower c = (if CHR ''A'' \<le> c \<and> c \<le> CHR ''Z'' then char_of (of_char c + (32 :: nat)) else c)"

definition like_eq :: "char \<Rightarrow> char \<Rightarrow> bool" where
  "like_eq p c = (ascii_lower p = ascii_lower c)"

fun like_from :: "string \<Rightarrow> string \<Rightarrow> bool" where
  "like_from [] [] = True"
| "like_from [] (c # cs) = False"
| "like_from (p # ps) [] = (p = CHR ''%'' \<and> like_from ps [])"
| "like_from (p # ps) (c # cs) =
     (if p = CHR ''%'' then like_from ps (c # cs) \<or> like_from (p # ps) cs
      else (p = CHR ''_'' \<or> like_eq p c) \<and> like_from ps cs)"

definition cstr :: "string \<Rightarrow> string" where
  "cstr s = takeWhile (\<lambda>c. c \<noteq> CHR 0x00) s"

definition like :: "string \<Rightarrow> string \<Rightarrow> bool" where
  "like pat s = like_from (cstr pat) (cstr s)"

text \<open>
  The three conditions that the handler can put into \<^verbatim>\<open>where_clauses\<close>, each with the
  value bound to its parameter:
  \<^verbatim>\<open>from_msisdn = :from_val\<close>, \<^verbatim>\<open>ts >= :since_val\<close> and \<^verbatim>\<open>text LIKE :q_val\<close>.
  A condition holds of a row when SQL evaluates it to true; \<^verbatim>\<open>LIKE\<close> on a NULL text
  is NULL, which is not true.
\<close>

datatype where_clause = FromEq string | TsGe string | TextLike string

fun clause_holds :: "message_row \<Rightarrow> where_clause \<Rightarrow> bool" where
  "clause_holds r (FromEq from_val) = (from_msisdn r = from_val)"
| "clause_holds r (TsGe since_val) = (since_val \<le> ts r)"
| "clause_holds r (TextLike q_val) =
     (case text_col r of None \<Rightarrow> False | Some t \<Rightarrow> like q_val t)"

text \<open>
  \<^verbatim>\<open>where_sql = " AND ".join(where_clauses) if where_clauses else "1=1"\<close>: a row is
  selected when every clause holds, and every row when there is no clause.
\<close>

definition where_holds :: "where_clause list \<Rightarrow> message_row \<Rightarrow> bool" where
  "where_holds where_clauses r = list_all (clause_holds r) where_clauses"

text \<open>
  SQLite refuses a \<^verbatim>\<open>LIKE\<close> pattern of more than 50000 bytes (its default
  \<^verbatim>\<open>SQLITE_MAX_LIKE_PATTERN_LENGTH\<close>, counted on the UTF-8 text of the whole parameter): the
  function raises \<^verbatim>\<open>OperationalError\<close> when it is called, whatever the text of the row,
  NULL included. The engine tests the conditions of a row from left to right and stops at
  the first that is not true, so the query fails when some row passes the conditions
  before \<^verbatim>\<open>LIKE\<close>, and a query over no such row does not fail.
\<close>

definition like_pattern_limit :: nat where
  "like_pattern_limit = 50000"

fun clause_raises :: "where_clause \<Rightarrow> bool" where
  "clause_raises (FromEq from_val) = False"
| "clause_raises (TsGe since_val) = False"
| "clause_raises (TextLike q_val) = (like_pattern_limit < length (encode q_val))"

definition pattern_too_complex :: sqlite_error where
  "pattern_too_complex = OperationalError ''LIKE or GLOB pattern too complex''"

fun where_eval :: "where_clause list \<Rightarrow> message_row \<Rightarrow> sqlite_error + bool" where
  "where_eval [] r = Inr True"
| "where_eval (c # cs) r =
     (if clause_raises c then Inl pattern_too_complex
      else if clause_holds r c then where_eval cs r
      else Inr False)"

text \<open>
  \<^verbatim>\<open>SELECT ... FROM messages WHERE {where_sql}\<close>: the scan of the table, which keeps the
  rows of which the condition is true and fails when the condition fails on a row.
\<close>

fun select_where :: "where_clause list \<Rightarrow> table \<Rightarrow> sqlite_error + table" where
  "select_where cs [] = Inr []"
| "select_where cs (r # rs) =
     (case where_eval cs r of
        Inl e \<Rightarrow> Inl e
      | Inr keep \<Rightarrow>
          (case select_where cs rs of
             Inl e \<Rightarrow> Inl e
           | Inr rows \<Rightarrow> Inr (if keep then r # rows else rows)))"

text \<open>
  The columns of the data query,
  \<^verbatim>\<open>SELECT message_id, from_msisdn as 'from', to_msisdn as 'to', ts, text\<close>,
  and the object that the handler returns.
\<close>

record message_view =
  v_message_id :: "string option"
  v_from :: string
  v_to :: string
  v_ts :: string
  v_text :: "string option"

definition view :: "message_row \<Rightarrow> message_view" where
  "view r = \<lparr>v_message_id = message_id r, v_from = from_msisdn r, v_to = to_msisdn r,
             v_ts = ts r, v_text = text_col r\<rparr>"

record page =
  pg_data :: "message_view list"
  pg_total :: nat
  pg_limit :: int
  pg_offset :: int

text \<open>
  \<^verbatim>\<open>ORDER BY ts ASC, message_id ASC\<close>: the rows sorted by the pair of the two columns,
  strings in the order of their code points and NULL before every string. Rows that
  agree on both columns (which needs a NULL \<^verbatim>\<open>message_id\<close>) stay in rowid order; SQL
  leaves their order open.
\<close>

definition order_key :: "message_row \<Rightarrow> string \<times> string option" where
  "order_key r = (ts r, message_id r)"

definition order_by :: "table \<Rightarrow> table" where
  "order_by rows = sort_key order_key rows"

text \<open>
  The handler \<^verbatim>\<open>list_messages\<close> of app/main.py (lines 133 to 182), with the validation
  that its signature declares:
  \<^verbatim>\<open>
  limit: int = Query(50, ge=1, le=100),
  offset: int = Query(0, ge=0),
  from_: str = Query(None, alias="from"),
  since: str = None,
  q: str = None\<close>
  A parameter is \<^const>\<open>None\<close> when the query string does not have it. The framework
  reports the errors of all parameters together. The count query runs first, then the
  data query; an \<^verbatim>\<open>offset\<close> that does not fit SQLite's 64-bit INTEGER makes the binding
  of the data query raise \<^verbatim>\<open>OverflowError\<close>.
\<close>

definition build_where :: "string option \<Rightarrow> string option \<Rightarrow> string option \<Rightarrow> where_clause list" where
  "build_where from_param since q =
     (case from_param of None \<Rightarrow> [] | Some v \<Rightarrow> if v = [] then [] else [FromEq v])
     @ (case since of None \<Rightarrow> [] | Some v \<Rightarrow> if v = [] then [] else [TsGe v])
     @ (case q of None \<Rightarrow> [] | Some v \<Rightarrow> if v = [] then [] else [TextLike (''%'' @ v @ ''%'')])"

definition query_errors :: "int \<Rightarrow> int \<Rightarrow> (string \<times> string) list" where
  "query_errors lim off =
     (if lim < 1 then [(''limit'', ''Input should be greater than or equal to 1'')]
      else if 100 < lim then [(''limit'', ''Input should be less than or equal to 100'')]
      else [])
     @ (if off < 0 then [(''offset'', ''Input should be greater than or equal to 0'')] else [])"

definition list_messages :: "fault \<Rightarrow> table \<Rightarrow> int option \<Rightarrow> int option
    \<Rightarrow> string option \<Rightarrow> string option \<Rightarrow> string option \<Rightarrow> exc + page" where
  "list_messages flt tbl limit_param offset_param from_param since q =
     (let lim = (case limit_param of None \<Rightarrow> 50 | Some n \<Rightarrow> n);
          off = (case offset_param of None \<Rightarrow> 0 | Some n \<Rightarrow> n)
      in
      if query_errors lim off \<noteq> [] then Inl (RequestValidationError (query_errors lim off))
      else
        let where_clauses = build_where from_param since q in
        case flt of
          Some msg \<Rightarrow> Inl (SqliteError (OperationalError msg))
        | None \<Rightarrow>
            (case select_where where_clauses tbl of
               Inl e \<Rightarrow> Inl (SqliteError e)
             | Inr matching \<Rightarrow>
                 let total = length matching in
                 if 2 ^ 63 \<le> off
                 then Inl (OverflowError ''Python int too large to convert to SQLite INTEGER'')
                 else
                   let rows = take (nat lim) (drop (nat off) (order_by matching))
                   in Inr \<lparr>pg_data = map view rows, pg_total = total,
                           pg_limit = lim, pg_offset = off\<rparr>))"

section \<open>GET /stats\<close>

text \<open>
  The aggregates \<^verbatim>\<open>MIN\<close> and \<^verbatim>\<open>MAX\<close> over a column without NULL: NULL over no row,
  otherwise the least and the greatest value.
\<close>

definition sql_min :: "string list \<Rightarrow> string option" where
  "sql_min xs = (case xs of [] \<Rightarrow> None | x # ys \<Rightarrow> Some (fold min ys x))"

definition sql_max :: "string list \<Rightarrow> string option" where
  "sql_max xs = (case xs of [] \<Rightarrow> None | x # ys \<Rightarrow> Some (fold max ys x))"

record stats =
  total_messages :: nat
  senders_count :: nat
  messages_per_sender :: "(string \<times> nat) list"
  first_message_ts :: "string option"
  last_message_ts :: "string option"

text \<open>
  \<^verbatim>\<open>
  SELECT from_msisdn as 'from', COUNT(*) as count FROM messages
  GROUP BY from_msisdn ORDER BY count DESC LIMIT 10\<close>
  One group for each sender, the largest counts first. SQL leaves the order of groups
  with the same count open; SQLite's sorter returns them with the greater sender first,
  and so does the model.
\<close>

definition senders_query :: "table \<Rightarrow> (string \<times> nat) list" where
  "senders_query tbl =
     (let senders = map from_msisdn tbl;
          groups = map (\<lambda>s. (s, count_list senders s)) (rev (sort (remdups senders)))
      in take 10 (sort_key (\<lambda>(s, n). - int n) groups))"

text \<open>
  The handler \<^verbatim>\<open>get_stats\<close> of app/main.py (lines 184 to 219). Its first query is
  \<^verbatim>\<open>
  SELECT COUNT(*) as total, COUNT(DISTINCT from_msisdn) as senders,
         MIN(ts) as first_ts, MAX(ts) as last_ts
  FROM messages\<close>
\<close>

definition get_stats :: "fault \<Rightarrow> table \<Rightarrow> exc + stats" where
  "get_stats flt tbl =
     (case flt of
        Some msg \<Rightarrow> Inl (SqliteError (OperationalError msg))
      | None \<Rightarrow>
          Inr \<lparr>total_messages = length tbl,
               senders_count = length (remdups (map from_msisdn tbl)),
               messages_per_sender = senders_query tbl,
               first_message_ts = sql_min (map ts tbl),
               last_message_ts = sql_max (map ts tbl)\<rparr>)"

section \<open>Notions of the specification\<close>

text \<open>
  The primary key of the table: no two rows carry the same \<^verbatim>\<open>message_id\<close> (NULL
  apart). The empty table of \<^verbatim>\<open>init_db\<close> satisfies it and every insert keeps it.
\<close>

definition primary_key_ok :: "table \<Rightarrow> bool" where
  "primary_key_ok tbl = distinct (filter (\<lambda>m. m \<noteq> None) (map message_id tbl))"

definition rows_with_id :: "table \<Rightarrow> string \<Rightarrow> table" where
  "rows_with_id tbl m = filter (\<lambda>r. message_id r = Some m) tbl"



text \<open>
  The rows that a query of \<^verbatim>\<open>GET /messages\<close> selects: a filter that is absent or empty
  selects every row; \<^verbatim>\<open>from\<close> selects the rows of that sender, \<^verbatim>\<open>since\<close> the rows
  whose \<^verbatim>\<open>ts\<close> is not before it, \<^verbatim>\<open>q\<close> the rows whose text is \<^verbatim>\<open>LIKE\<close> the query
  between two \<^verbatim>\<open>%\<close>.
\<close>

definition selected :: "string option \<Rightarrow> string option \<Rightarrow> string option \<Rightarrow> message_row \<Rightarrow> bool" where
  "selected from_param since q r =
     ((case from_param of None \<Rightarrow> True | Some x \<Rightarrow> x = [] \<or> from_msisdn r = x)
      \<and> (case since of None \<Rightarrow> True | Some t \<Rightarrow> t = [] \<or> t \<le> ts r)
      \<and> (case q of
            None \<Rightarrow> True
          | Some s \<Rightarrow>
              s = [] \<or> (case text_col r of
                          None \<Rightarrow> False
                        | Some t \<Rightarrow> like (''%'' @ s @ ''%'') t)))"

text \<open>
  A query that the engine refuses at a row: the pattern of \<^verbatim>\<open>q\<close> (the query between
  two \<^verbatim>\<open>%\<close>) is longer than the limit, and the row is one that the other filters select.
\<close>

definition like_refused :: "string option \<Rightarrow> string option \<Rightarrow> string option \<Rightarrow> message_row \<Rightarrow> bool" where
  "like_refused from_param since q r =
     (case q of
        None \<Rightarrow> False
      | Some s \<Rightarrow>
          s \<noteq> [] \<and> like_pattern_limit < length (encode (''%'' @ s @ ''%''))
          \<and> selected from_param since None r)"

text \<open>
  A request for a page that passes the declared bounds of \<^verbatim>\<open>limit\<close> and \<^verbatim>\<open>offset\<close>,
  with an offset that fits SQLite's 64-bit integer.
\<close>

definition page_request :: "int option \<Rightarrow> int option \<Rightarrow> bool" where
  "page_request limit_param offset_param =
     (let lim = (case limit_param of None \<Rightarrow> 50 | Some n \<Rightarrow> n);
          off = (case offset_param of None \<Rightarrow> 0 | Some n \<Rightarrow> n)
      in 1 \<le> lim \<and> lim \<le> 100 \<and> 0 \<le> off \<and> off < 2 ^ 63)"

text \<open>
  The order of the listing, written out: an earlier \<^verbatim>\<open>ts\<close> first, and for equal
  \<^verbatim>\<open>ts\<close> the smaller \<^verbatim>\<open>message_id\<close> first.
\<close>

definition listed_before :: "message_view \<Rightarrow> message_view \<Rightarrow> bool" where
  "listed_before a b =
     (v_ts a < v_ts b \<or> (v_ts a = v_ts b \<and> v_message_id a \<le> v_message_id b))"

text \<open>
  A text contains a query as a segment: the literal substring that C8 describes. The
  function looks for the query at every position of the text (\<open>contains_literal_iff\<close>
  below states it with the two surrounding pieces).
\<close>

fun contains_literal :: "string \<Rightarrow> string \<Rightarrow> bool" where
  "contains_literal s [] = (s = [])"
| "contains_literal s (c # cs) = (take (length s) (c # cs) = s \<or> contains_literal s cs)"

text \<open>
  A text contains a query up to the case of ASCII letters: lower-cased, the text (read
  up to its first NUL) contains the lower-cased query.
\<close>

definition contains_nocase :: "string \<Rightarrow> string \<Rightarrow> bool" where
  "contains_nocase s t = contains_literal (map ascii_lower s) (map ascii_lower (cstr t))"

definition text_contains_nocase :: "string \<Rightarrow> message_row \<Rightarrow> bool" where
  "text_contains_nocase s r =
     (case text_col r of None \<Rightarrow> False | Some t \<Rightarrow> contains_nocase s t)"

text \<open>
  The states that the application reaches: it starts on the empty table of \<^verbatim>\<open>init_db\<close>
  and the table changes through requests to \<^verbatim>\<open>/webhook\<close> only.
\<close>

inductive reachable :: "libs \<Rightarrow> Settings \<Rightarrow> app_state \<Rightarrow> bool" for lb :: libs and settings :: Settings where
  reachable_init: "reachable lb settings \<lparr>messages = [], webhook_outcomes = []\<rparr>"
| reachable_post:
    "reachable lb settings st \<Longrightarrow> reachable lb settings (snd (post_webhook lb settings env st req))"

section \<open>An example deployment\<close>








text \<open>The three rows that tests/conftest.py stores.\<close>

definition seed_table :: table where
  "seed_table =
     [\<lparr>message_id = Some ''m1'', from_msisdn = ''+111'', to_msisdn = ''+999'',
       ts = ''2025-01-01T10:00:00Z'', text_col = Some ''Oldest'',
       created_at = ''2025-01-01T10:00:00Z''\<rparr>,
      \<lparr>message_id = Some ''m2'', from_msisdn = ''+111'', to_msisdn = ''+999'',
       ts = ''2025-01-02T10:00:00Z'', text_col = Some ''Middle'',
       created_at = ''2025-01-02T10:00:00Z''\<rparr>,
      \<lparr>message_id = Some ''m3'', from_msisdn = ''+222'', to_msisdn = ''+999'',
       ts = ''2025-01-03T10:00:00Z'', text_col = Some ''Newest'',
       created_at = ''2025-01-03T10:00:00Z''\<rparr>]"

section \<open>The pattern matcher decides the patterns\<close>

lemma nullable_iff: "nullable r \<longleftrightarrow> [] \<in> lang r"
  by (induction r) (auto intro: star.intros)

lemma star_cons:
  "c # s \<in> star A \<longleftrightarrow> (\<exists>u v. s = u @ v \<and> c # u \<in> A \<and> v \<in> star A)"
proof
  assume "c # s \<in> star A"
  then show "\<exists>u v. s = u @ v \<and> c # u \<in> A \<and> v \<in> star A"
  proof (induction "c # s" rule: star.induct)
    case (star_app u v)
    then show ?case by (cases u) auto
  qed
next
  assume "\<exists>u v. s = u @ v \<and> c # u \<in> A \<and> v \<in> star A"
  then obtain u v where "s = u @ v" "c # u \<in> A" "v \<in> star A" by blast
  then show "c # s \<in> star A" using star.star_app [of "c # u" A v] by simp
qed

lemma deriv_iff: "s \<in> lang (deriv c r) \<longleftrightarrow> c # s \<in> lang r"
proof (induction r arbitrary: s)
  case (Seq r1 r2)
  show ?case
    by (auto simp add: Seq nullable_iff Cons_eq_append_conv)
next
  case (Star r)
  show ?case by (auto simp add: Star star_cons)
qed auto

lemma foldl_deriv: "nullable (foldl (\<lambda>r c. deriv c r) r s) \<longleftrightarrow> s \<in> lang r"
  by (induction s arbitrary: r) (simp_all add: nullable_iff deriv_iff)

lemma fullmatch_iff: "fullmatch r s \<longleftrightarrow> s \<in> lang r"
  by (simp add: fullmatch_def foldl_deriv)


lemma in_seq_chr:
  "s \<in> lang (Seq (Chr a) r) \<longleftrightarrow> (\<exists>c t. s = c # t \<and> a = c \<and> t \<in> lang r)"
  by auto

lemma in_chr: "s \<in> lang (Chr a) \<longleftrightarrow> (\<exists>c t. s = c # t \<and> a = c \<and> t = [])"
  by auto

lemma in_seq_digit:
  "s \<in> lang (Seq Digit r) \<longleftrightarrow> (\<exists>c t. s = c # t \<and> is_digit c \<and> t \<in> lang r)"
proof
  assume "s \<in> lang (Seq Digit r)"
  then show "\<exists>c t. s = c # t \<and> is_digit c \<and> t \<in> lang r" by auto
next
  assume "\<exists>c t. s = c # t \<and> is_digit c \<and> t \<in> lang r"
  then obtain c t where "s = [c] @ t" "is_digit c" "t \<in> lang r" by auto
  then show "s \<in> lang (Seq Digit r)" by (simp del: append.simps) blast
qed

lemma in_seq_one: "s \<in> lang (Seq One r) \<longleftrightarrow> s \<in> lang r"
  by simp

lemma in_seq_seq: "s \<in> lang (Seq (Seq a b) c) \<longleftrightarrow> s \<in> lang (Seq a (Seq b c))"
  by (simp del: append_assoc) (metis append_assoc)


lemma rep_2: "rep 2 r = Seq r (Seq r One)"
  by (simp add: eval_nat_numeral)

lemma rep_4: "rep 4 r = Seq r (Seq r (Seq r (Seq r One)))"
  by (simp add: eval_nat_numeral)

lemma ts_iff: "fullmatch ts_pattern s \<longleftrightarrow> is_ts s"
  unfolding fullmatch_iff ts_pattern_def rep_2 rep_4 is_ts_def ts_shape_def
  by (simp only: in_seq_seq in_seq_one in_seq_digit in_seq_chr in_chr
        list_all2_Cons1 list_all2_Nil)

lemma ts_length: "fullmatch ts_pattern s \<Longrightarrow> length s = 20"
  by (auto simp add: ts_iff is_ts_def ts_shape_def dest: list_all2_lengthD)

section \<open>Idempotent insert\<close>

lemma sql_insert_row_data:
  "sql_insert tbl (row_data p now) =
     (if Some (p_message_id p) \<in> set (map message_id tbl)
      then Inl (IntegrityError (UNIQUE ''messages.message_id''))
      else Inr (tbl @ [stored_row p now]))"
  by (simp add: sql_insert_def row_data_def stored_row_def)

lemma insert_message_row_data:
  "insert_message None tbl (row_data p now) =
     (if Some (p_message_id p) \<in> set (map message_id tbl)
      then Inr (False, tbl)
      else Inr (True, tbl @ [stored_row p now]))"
  by (simp add: insert_message_def execute_insert_def sql_insert_row_data)

text \<open>
  C4. For every message (a string for each column) and every table, when the engine
  reports no fault, \<^const>\<open>insert_message\<close> returns a boolean: it is true if and only if
  the call created a new row (the table is the old one followed by the row of the
  message), false if and only if a row with the same \<^verbatim>\<open>message_id\<close> was already
  stored, and in the false case the table, hence every field of the stored row, is
  unchanged.
\<close>

theorem insert_message_first_write_wins:
  "\<exists>b tbl'. insert_message None tbl (row_data p now) = Inr (b, tbl')
     \<and> (b \<longleftrightarrow> tbl' = tbl @ [stored_row p now])
     \<and> (\<not> b \<longleftrightarrow> (\<exists>r \<in> set tbl. message_id r = Some (p_message_id p)))
     \<and> (\<not> b \<longrightarrow> tbl' = tbl)"
  by (auto simp add: insert_message_row_data image_iff)

theorem insert_message_first_write_wins_witness:
  "insert_message None [] (row_data \<lparr>p_message_id = ''m1'', p_from = ''+111'', p_to = ''+999'',
        p_ts = ''2025-01-01T10:00:00Z'', p_text = ''Oldest''\<rparr> ''2025-01-01T10:00:00Z'')
     = Inr (True, [stored_row \<lparr>p_message_id = ''m1'', p_from = ''+111'', p_to = ''+999'',
        p_ts = ''2025-01-01T10:00:00Z'', p_text = ''Oldest''\<rparr> ''2025-01-01T10:00:00Z''])
   \<and> insert_message None
       [stored_row \<lparr>p_message_id = ''m1'', p_from = ''+111'', p_to = ''+999'',
          p_ts = ''2025-01-01T10:00:00Z'', p_text = ''Oldest''\<rparr> ''2025-01-01T10:00:00Z'']
       (row_data \<lparr>p_message_id = ''m1'', p_from = ''+222'', p_to = ''+888'',
          p_ts = ''2025-01-03T10:00:00Z'', p_text = ''Newest''\<rparr> ''2025-01-03T10:00:00Z'')
     = Inr (False, [stored_row \<lparr>p_message_id = ''m1'', p_from = ''+111'', p_to = ''+999'',
          p_ts = ''2025-01-01T10:00:00Z'', p_text = ''Oldest''\<rparr> ''2025-01-01T10:00:00Z''])"
  using
    insert_message_first_write_wins [of "[]"
      "\<lparr>p_message_id = ''m1'', p_from = ''+111'', p_to = ''+999'',
        p_ts = ''2025-01-01T10:00:00Z'', p_text = ''Oldest''\<rparr>" "''2025-01-01T10:00:00Z''"]
    insert_message_first_write_wins [of
      "[stored_row \<lparr>p_message_id = ''m1'', p_from = ''+111'', p_to = ''+999'',
          p_ts = ''2025-01-01T10:00:00Z'', p_text = ''Oldest''\<rparr> ''2025-01-01T10:00:00Z'']"
      "\<lparr>p_message_id = ''m1'', p_from = ''+222'', p_to = ''+888'',
          p_ts = ''2025-01-03T10:00:00Z'', p_text = ''Newest''\<rparr>" "''2025-01-03T10:00:00Z''"]
  by (auto simp add: stored_row_def)
section \<open>Authentication\<close>

lemma of_char_hex_digit: "n < 16 \<Longrightarrow> of_char (hex_digit n) < (128 :: nat)"
  by (simp add: hex_digit_def)

lemma is_ascii_hex_byte: "is_ascii (hex_byte b)"
proof -
  have "(of_char b :: nat) div 16 < 16"
    using nat_of_char_less_256 [of b] by (intro less_mult_imp_div_less) simp
  then show ?thesis
    by (simp add: is_ascii_def hex_byte_def of_char_hex_digit)
qed

lemma is_ascii_append: "is_ascii (xs @ ys) \<longleftrightarrow> is_ascii xs \<and> is_ascii ys"
  by (simp add: is_ascii_def)

lemma is_ascii_hexdigest: "is_ascii (hexdigest d)"
  by (induction d) (simp_all add: hexdigest_def is_ascii_append is_ascii_hex_byte, simp add: is_ascii_def)

lemma hexdigest_Nil_iff: "hexdigest d = [] \<longleftrightarrow> d = []"
  by (cases d) (simp_all add: hexdigest_def hex_byte_def)

lemma compare_digest_expected:
  "compare_digest s (expected_sig lb settings b) =
     (if is_ascii s then Inr (s = expected_sig lb settings b)
      else Inl (TypeError ''comparing strings with non-ASCII characters is not supported''))"
  by (simp add: compare_digest_def expected_sig_def is_ascii_hexdigest)

lemma expected_sig_json_loads [simp]:
  "expected_sig (lb\<lparr>json_loads := loads\<rparr>) settings b = expected_sig lb settings b"
  by (simp add: expected_sig_def)

text \<open>
  A request without the header, with an empty one, or with an ASCII value that is not the
  expected signature is answered 401; the table is untouched, and the answer does not
  depend on the parser, which is never called.
\<close>

lemma webhook_unauthenticated:
  assumes "x_signature req = None \<or> x_signature req = Some []
           \<or> (\<exists>s. x_signature req = Some s \<and> is_ascii s \<and> s \<noteq> expected_sig lb settings (raw_body req))"
  shows "post_webhook lb settings env st req =
           (invalid_signature_response, inc_outcome ''invalid_signature'' st)"
  using assms
  by (auto simp add: post_webhook_def webhook_def compare_digest_expected Let_def)

lemma webhook_unauthenticated_no_parse:
  assumes "x_signature req \<noteq> Some (expected_sig lb settings (raw_body req))"
  shows "post_webhook (lb\<lparr>json_loads := loads\<rparr>) settings env st req = post_webhook lb settings env st req"
    and "messages (snd (post_webhook lb settings env st req)) = messages st"
  using assms
  by (auto simp add: post_webhook_def webhook_def compare_digest_expected Let_def
        inc_outcome_def split: option.splits)

text \<open>
  C2. The specification promises 401 for every header that differs from the expected
  signature. A header with a character outside ASCII differs from it, and the handler
  does not answer 401: \<^const>\<open>compare_digest\<close> raises, nothing catches the exception, and the
  response is 500. (Nothing is parsed or stored, as the specification says.)
\<close>

theorem webhook_non_ascii_signature_500:
  "post_webhook lb settings env st \<lparr>x_signature = Some [CHR 0xE9], raw_body = body_bytes\<rparr>
     = (\<lparr>status_code = 500, content = PlainText ''Internal Server Error''\<rparr>, st)"
  by (simp add: post_webhook_def webhook_def compare_digest_expected is_ascii_def Let_def)

section \<open>Storage failures\<close>

lemma insert_message_fault:
  "insert_message (Some msg) tbl d = Inl (OperationalError msg)"
  by (simp add: insert_message_def execute_insert_def)

lemma insert_message_False_cases:
  assumes "insert_message flt tbl d = Inr (False, tbl')"
  shows "tbl' = tbl \<and> (\<exists>c. execute_insert flt tbl d = Inl (IntegrityError c))"
  using assms
  by (auto simp add: insert_message_def split: sum.splits sqlite_error.splits)

text \<open>
  C5. The specification: no failure other than a duplicate \<^verbatim>\<open>message_id\<close> is reported as a
  duplicate. The handler of \<^verbatim>\<open>IntegrityError\<close> in \<^const>\<open>insert_message\<close> also catches the
  failure of a NOT NULL constraint: on the empty table, where nothing can be a duplicate,
  a message whose sender is \<^verbatim>\<open>None\<close> makes it return \<^verbatim>\<open>False\<close>.
\<close>

theorem insert_message_not_null_reported_duplicate:
  "insert_message None []
     [''message_id'' \<mapsto> Some ''m1'', ''from'' \<mapsto> None, ''to'' \<mapsto> Some ''+999'',
      ''ts'' \<mapsto> Some ''2025-01-01T10:00:00Z'', ''text'' \<mapsto> Some ''Oldest'',
      ''created_at'' \<mapsto> Some ''2025-01-01T10:00:00Z'']
   = Inr (False, [])"
  by (simp add: insert_message_def execute_insert_def sql_insert_def)

text \<open>
  The rest of C5 holds. A fault of the engine leaves \<^const>\<open>insert_message\<close> as an
  exception, and the webhook then answers 500 and stores nothing.
\<close>

lemma expected_sig_Nil_iff:
  "expected_sig lb settings b = [] \<longleftrightarrow> hmac_sha256 lb (encode (WEBHOOK_SECRET settings)) b = []"
  by (simp add: expected_sig_def hexdigest_Nil_iff)

text \<open>The handler on a request that carries the expected signature.\<close>

lemma webhook_authenticated:
  assumes "x_signature req = Some (expected_sig lb settings (raw_body req))"
    and "hmac_sha256 lb (encode (WEBHOOK_SECRET settings)) (raw_body req) \<noteq> []"
  shows "webhook lb settings env st req =
     (case parse_payload (json_loads lb) (raw_body req) of
        Inl e \<Rightarrow> (Inl (HTTPException 422 (str_exc e)), inc_outcome ''validation_error'' st)
      | Inr payload \<Rightarrow>
          (case insert_message (storage_fault env) (messages st)
                  (row_data payload (utcnow_isoformat env @ ''Z'')) of
             Inl e \<Rightarrow> (Inl (SqliteError e), st)
           | Inr (inserted, tbl') \<Rightarrow>
               (Inr ok_response,
                inc_outcome (if inserted then ''created'' else ''duplicate'')
                  (st\<lparr>messages := tbl'\<rparr>))))"
proof -
  have "is_ascii (expected_sig lb settings (raw_body req))"
    by (simp add: expected_sig_def is_ascii_hexdigest)
  then show ?thesis
    using assms by (simp add: webhook_def compare_digest_expected expected_sig_Nil_iff Let_def)
qed

lemma webhook_storage_fault:
  assumes "x_signature req = Some (expected_sig lb settings (raw_body req))"
    and "hmac_sha256 lb (encode (WEBHOOK_SECRET settings)) (raw_body req) \<noteq> []"
    and "parse_payload (json_loads lb) (raw_body req) = Inr payload"
    and "storage_fault env = Some msg"
  shows "post_webhook lb settings env st req =
           (\<lparr>status_code = 500, content = PlainText ''Internal Server Error''\<rparr>, st)"
  using assms
  by (simp add: post_webhook_def webhook_authenticated insert_message_fault)

section \<open>The primary key\<close>

lemma primary_key_ok_Nil: "primary_key_ok []"
  by (simp add: primary_key_ok_def)

lemma primary_key_ok_sql_insert:
  assumes "primary_key_ok tbl" and "sql_insert tbl d = Inr tbl'"
  shows "primary_key_ok tbl'"
  using assms
  by (auto simp add: sql_insert_def primary_key_ok_def split: option.splits if_splits)

lemma primary_key_ok_insert_message:
  assumes "primary_key_ok tbl" and "insert_message flt tbl d = Inr (b, tbl')"
  shows "primary_key_ok tbl'"
  using assms primary_key_ok_sql_insert [of tbl d]
  by (auto simp add: insert_message_def execute_insert_def
        split: sum.splits sqlite_error.splits option.splits)

lemma primary_key_ok_webhook:
  assumes "primary_key_ok (messages st)"
  shows "primary_key_ok (messages (snd (post_webhook lb settings env st req)))"
  using assms primary_key_ok_insert_message [of "messages st"]
  by (auto simp add: post_webhook_def webhook_def inc_outcome_def Let_def
        split: option.splits sum.splits bool.splits prod.splits)


lemma rows_with_id_new:
  assumes "Some m \<notin> set (map message_id tbl)" and "message_id r = Some m"
  shows "length (rows_with_id (tbl @ [r]) m) = 1"
proof -
  from assms(1) have "rows_with_id tbl m = []"
    by (force simp add: rows_with_id_def filter_empty_conv)
  with assms(2) show ?thesis by (simp add: rows_with_id_def)
qed

section \<open>Reachable states\<close>

text \<open>
  Every row that the webhook stores has a \<^verbatim>\<open>message_id\<close>, so in every state that the
  application reaches no two rows carry the same \<^verbatim>\<open>message_id\<close>.
\<close>

lemma insert_row_data_no_null:
  assumes "None \<notin> message_id ` set tbl"
    and "insert_message flt tbl (row_data p now) = Inr (b, tbl')"
  shows "None \<notin> message_id ` set tbl'"
proof (cases flt)
  case None
  with assms show ?thesis
    by (auto simp add: insert_message_row_data stored_row_def split: if_splits)
next
  case (Some msg)
  with assms show ?thesis by (simp add: insert_message_fault)
qed

lemma webhook_no_null:
  assumes "None \<notin> message_id ` set (messages st)"
  shows "None \<notin> message_id ` set (messages (snd (post_webhook lb settings env st req)))"
  using assms insert_row_data_no_null [of "messages st" "storage_fault env"]
  by (auto simp add: post_webhook_def webhook_def inc_outcome_def Let_def
        split: option.splits sum.splits bool.splits prod.splits)

lemma distinct_message_ids:
  assumes "primary_key_ok tbl" and "None \<notin> message_id ` set tbl"
  shows "distinct (map message_id tbl)"
proof -
  from assms(2) have "filter (\<lambda>m. m \<noteq> None) (map message_id tbl) = map message_id tbl"
    by (force simp add: filter_id_conv)
  with assms(1) show ?thesis by (simp add: primary_key_ok_def)
qed

lemma reachable_invariant:
  assumes "reachable lb settings st"
  shows "primary_key_ok (messages st) \<and> None \<notin> message_id ` set (messages st)"
  using assms
proof (induction rule: reachable.induct)
  case reachable_init
  show ?case by (simp add: primary_key_ok_def)
next
  case (reachable_post st env req)
  then show ?case by (simp add: primary_key_ok_webhook webhook_no_null)
qed

lemma reachable_distinct_ids:
  assumes "reachable lb settings st"
  shows "distinct (map message_id (messages st))"
  using reachable_invariant [OF assms] by (simp add: distinct_message_ids)

section \<open>Idempotent delivery\<close>


lemma message_id_stored_row [simp]: "message_id (stored_row p now) = Some (p_message_id p)"
  by (simp add: stored_row_def)




section \<open>Validation\<close>












section \<open>Listing: what a page holds\<close>

lemma where_holds_build_where:
  "where_holds (build_where from_param since q) r = selected from_param since q r"
  by (auto simp add: where_holds_def build_where_def selected_def split: option.splits)

text \<open>The scan fails with one error only, and otherwise filters the table.\<close>

lemma where_eval_Inr:
  "where_eval cs r = Inr b \<Longrightarrow> b = where_holds cs r"
  by (induction cs) (auto simp add: where_holds_def split: if_splits)

lemma where_eval_Inl:
  "where_eval cs r = Inl e \<Longrightarrow> e = pattern_too_complex"
  by (induction cs) (auto split: if_splits)

lemma select_where_eq:
  "select_where cs tbl =
     (if list_ex (\<lambda>r. isl (where_eval cs r)) tbl then Inl pattern_too_complex
      else Inr (filter (where_holds cs) tbl))"
proof (induction tbl)
  case Nil
  show ?case by simp
next
  case (Cons r rs)
  show ?case
  proof (cases "where_eval cs r")
    case (Inl e)
    then show ?thesis using where_eval_Inl [OF Inl] by simp
  next
    case (Inr b)
    then show ?thesis using where_eval_Inr [OF Inr] Cons.IH by simp
  qed
qed

lemma where_eval_build_where:
  "isl (where_eval (build_where from_param since q) r) = like_refused from_param since q r"
  by (auto simp add: build_where_def like_refused_def selected_def split: option.splits)

lemma select_where_build_where:
  "select_where (build_where from_param since q) tbl =
     (if list_ex (like_refused from_param since q) tbl then Inl pattern_too_complex
      else Inr (filter (selected from_param since q) tbl))"
  unfolding select_where_eq where_eval_build_where where_holds_build_where [abs_def] ..

text \<open>The handler, with the scan of the table resolved.\<close>

lemma list_messages_unfold:
  "list_messages flt tbl limit_param offset_param from_param since q =
     (let lim = (case limit_param of None \<Rightarrow> 50 | Some n \<Rightarrow> n);
          off = (case offset_param of None \<Rightarrow> 0 | Some n \<Rightarrow> n)
      in
      if query_errors lim off \<noteq> [] then Inl (RequestValidationError (query_errors lim off))
      else
        case flt of
          Some msg \<Rightarrow> Inl (SqliteError (OperationalError msg))
        | None \<Rightarrow>
            if list_ex (like_refused from_param since q) tbl
            then Inl (SqliteError pattern_too_complex)
            else if 2 ^ 63 \<le> off
            then Inl (OverflowError ''Python int too large to convert to SQLite INTEGER'')
            else Inr \<lparr>pg_data = map view (take (nat lim) (drop (nat off)
                          (order_by (filter (selected from_param since q) tbl)))),
                       pg_total = length (filter (selected from_param since q) tbl),
                       pg_limit = lim, pg_offset = off\<rparr>)"
  unfolding list_messages_def Let_def select_where_build_where
  by (simp split: option.splits)

lemma query_errors_Nil_iff:
  "query_errors lim off = [] \<longleftrightarrow> 1 \<le> lim \<and> lim \<le> 100 \<and> 0 \<le> off"
  by (auto simp add: query_errors_def)

text \<open>When the handler returns a page, and which.\<close>

lemma list_messages_Inr_iff:
  "list_messages flt tbl limit_param offset_param from_param since q = Inr pg \<longleftrightarrow>
     flt = None
     \<and> 1 \<le> (case limit_param of None \<Rightarrow> 50 | Some n \<Rightarrow> n)
     \<and> (case limit_param of None \<Rightarrow> 50 | Some n \<Rightarrow> n) \<le> 100
     \<and> 0 \<le> (case offset_param of None \<Rightarrow> 0 | Some n \<Rightarrow> n)
     \<and> (case offset_param of None \<Rightarrow> 0 | Some n \<Rightarrow> n) < 2 ^ 63
     \<and> \<not> list_ex (like_refused from_param since q) tbl
     \<and> pg = \<lparr>pg_data = map view
                 (take (nat (case limit_param of None \<Rightarrow> 50 | Some n \<Rightarrow> n))
                   (drop (nat (case offset_param of None \<Rightarrow> 0 | Some n \<Rightarrow> n))
                     (order_by (filter (selected from_param since q) tbl)))),
              pg_total = length (filter (selected from_param since q) tbl),
              pg_limit = (case limit_param of None \<Rightarrow> 50 | Some n \<Rightarrow> n),
              pg_offset = (case offset_param of None \<Rightarrow> 0 | Some n \<Rightarrow> n)\<rparr>"
  unfolding list_messages_unfold Let_def query_errors_Nil_iff
  by (cases flt) (auto simp add: not_le not_less)

lemma list_messages_page:
  assumes "list_messages flt tbl limit_param offset_param from_param since q = Inr pg"
  shows "pg_data pg = map view (take (nat (pg_limit pg)) (drop (nat (pg_offset pg))
           (order_by (filter (selected from_param since q) tbl))))"
    and "pg_total pg = length (filter (selected from_param since q) tbl)"
    and "1 \<le> pg_limit pg" and "0 \<le> pg_offset pg"
  using assms unfolding list_messages_Inr_iff by auto

text \<open>
  The handler returns a page for every query within the declared bounds whose pattern is
  within the limit of the engine, when the engine reports no fault.
\<close>

lemma like_refused_within_limit:
  assumes "case q of None \<Rightarrow> True
           | Some s \<Rightarrow> length (encode (''%'' @ s @ ''%'')) \<le> like_pattern_limit"
  shows "\<not> list_ex (like_refused from_param since q) tbl"
  using assms by (auto simp add: like_refused_def list_ex_iff split: option.splits)

lemma list_messages_total:
  assumes "page_request limit_param offset_param"
    and "case q of None \<Rightarrow> True
         | Some s \<Rightarrow> length (encode (''%'' @ s @ ''%'')) \<le> like_pattern_limit"
  shows "\<exists>pg. list_messages None tbl limit_param offset_param from_param since q = Inr pg"
  using assms(1) like_refused_within_limit [OF assms(2)]
  unfolding list_messages_Inr_iff page_request_def Let_def by simp

text \<open>
  Beyond the limit the request fails as soon as one stored row passes the other filters:
  the handler leaves with the error of the engine, which the framework answers with 500.
\<close>

lemma list_messages_pattern_too_complex:
  assumes "page_request limit_param offset_param"
    and "s \<noteq> []" and "like_pattern_limit < length (encode (''%'' @ s @ ''%''))"
    and "r \<in> set tbl" and "selected from_param since None r"
  shows "list_messages None tbl limit_param offset_param from_param since (Some s)
           = Inl (SqliteError pattern_too_complex)"
proof -
  have "list_ex (like_refused from_param since (Some s)) tbl"
    using assms(2-5) by (auto simp add: like_refused_def list_ex_iff)
  then show ?thesis
    using assms(1)
    by (simp add: list_messages_unfold query_errors_Nil_iff page_request_def Let_def)
qed

text \<open>The pattern of a query of ASCII characters has one byte for each character.\<close>

lemma length_encode_replicate_ascii:
  "of_char c < (128 :: nat) \<Longrightarrow> length (encode (replicate n c)) = n"
  by (simp add: encode_def length_concat sum_list_replicate)

lemma length_encode_append:
  "length (encode (a @ b)) = length (encode a) + length (encode b)"
  by (simp add: encode_def)

section \<open>Listing: empty parameters\<close>

lemma build_where_empty:
  "build_where (Some []) since q = build_where None since q"
  "build_where from_param (Some []) q = build_where from_param None q"
  "build_where from_param since (Some []) = build_where from_param since None"
  by (simp_all add: build_where_def)

section \<open>Listing: the order of a page\<close>

lemma order_key_le:
  "order_key r \<le> order_key r' \<longleftrightarrow>
     ts r < ts r' \<or> (ts r = ts r' \<and> message_id r \<le> message_id r')"
  by (auto simp add: order_key_def less_eq_prod_def)

lemma listed_before_view: "listed_before (view r) (view r') \<longleftrightarrow> order_key r \<le> order_key r'"
  by (simp add: listed_before_def view_def order_key_le)

lemma sorted_order_by: "sorted (map order_key (order_by rows))"
  by (simp add: order_by_def)

lemma sorted_wrt_order_by: "sorted_wrt (\<lambda>r r'. order_key r \<le> order_key r') (order_by rows)"
  using sorted_order_by [of rows] by (simp add: sorted_map)

lemma sorted_wrt_page_rows:
  "sorted_wrt (\<lambda>r r'. order_key r \<le> order_key r') (take n (drop k (order_by rows)))"
  by (intro sorted_wrt_take sorted_wrt_drop sorted_wrt_order_by)

lemma listed_before_page:
  "sorted_wrt listed_before (map view (take n (drop k (order_by rows))))"
  using sorted_wrt_page_rows [of n k rows]
  by (simp add: sorted_wrt_map listed_before_view)

text \<open>
  The listing does not depend on the order in which the rows were stored, when no two
  rows carry the same \<^verbatim>\<open>message_id\<close>.
\<close>

lemma inj_on_order_key:
  assumes "distinct (map message_id tbl)"
  shows "inj_on order_key (set tbl)"
proof (rule inj_onI)
  fix r r'
  assume "r \<in> set tbl" "r' \<in> set tbl" "order_key r = order_key r'"
  then have "message_id r = message_id r'" by (simp add: order_key_def)
  with assms \<open>r \<in> set tbl\<close> \<open>r' \<in> set tbl\<close> show "r = r'"
    by (meson distinct_map inj_onD)
qed

lemma order_by_filter_permuted:
  assumes "distinct (map message_id tbl)" and "mset tbl' = mset tbl"
  shows "order_by (filter P tbl') = order_by (filter P tbl)"
    and "length (filter P tbl') = length (filter P tbl)"
proof -
  have m: "mset (filter P tbl') = mset (filter P tbl)"
    using assms(2) by simp
  have "set tbl' = set tbl"
    using assms(2) by (rule mset_eq_setD)
  then have "inj_on order_key (set (filter P tbl'))"
    using inj_on_order_key [OF assms(1)] by (auto intro: inj_on_subset)
  with m show "order_by (filter P tbl') = order_by (filter P tbl)"
    unfolding order_by_def by (rule sort_key_eq_sort_key)
  from m show "length (filter P tbl') = length (filter P tbl)"
    by (metis size_mset)
qed

lemma list_messages_permuted:
  assumes "distinct (map message_id tbl)" and "mset tbl' = mset tbl"
  shows "list_messages flt tbl' limit_param offset_param from_param since q
           = list_messages flt tbl limit_param offset_param from_param since q"
proof -
  have "set tbl' = set tbl"
    using assms(2) by (rule mset_eq_setD)
  then have "list_ex (like_refused from_param since q) tbl'
      = list_ex (like_refused from_param since q) tbl"
    by (simp add: list_ex_iff)
  then show ?thesis
    unfolding list_messages_unfold Let_def order_by_filter_permuted [OF assms] by simp
qed

text \<open>
  C6. The data of every page that \<^verbatim>\<open>GET /messages\<close> returns is in ascending order of
  \<^verbatim>\<open>ts\<close>, and of \<^verbatim>\<open>message_id\<close> among equal \<^verbatim>\<open>ts\<close> (strings compare by code points).
  The page is a function of the query and of the rows stored: when no two rows carry the
  same \<^verbatim>\<open>message_id\<close>, the same rows stored in any other order give the same page.
\<close>

theorem list_messages_sorted:
  assumes "list_messages flt tbl limit_param offset_param from_param since q = Inr pg"
  shows "sorted_wrt listed_before (pg_data pg)
         \<and> (\<forall>tbl'. distinct (map message_id tbl) \<and> mset tbl' = mset tbl \<longrightarrow>
               list_messages flt tbl' limit_param offset_param from_param since q = Inr pg)"
proof (intro conjI allI impI)
  show "sorted_wrt listed_before (pg_data pg)"
    unfolding list_messages_page(1) [OF assms] by (rule listed_before_page)
next
  fix tbl'
  assume "distinct (map message_id tbl) \<and> mset tbl' = mset tbl"
  then have "list_messages flt tbl' limit_param offset_param from_param since q
      = list_messages flt tbl limit_param offset_param from_param since q"
    by (intro list_messages_permuted) simp_all
  with assms show "list_messages flt tbl' limit_param offset_param from_param since q = Inr pg"
    by simp
qed

lemma seed_page_two:
  "list_messages None seed_table (Some 2) (Some 0) None None None =
     Inr \<lparr>pg_data =
            [\<lparr>v_message_id = Some ''m1'', v_from = ''+111'', v_to = ''+999'',
              v_ts = ''2025-01-01T10:00:00Z'', v_text = Some ''Oldest''\<rparr>,
             \<lparr>v_message_id = Some ''m2'', v_from = ''+111'', v_to = ''+999'',
              v_ts = ''2025-01-02T10:00:00Z'', v_text = Some ''Middle''\<rparr>],
          pg_total = 3, pg_limit = 2, pg_offset = 0\<rparr>"
  by (simp add: list_messages_Inr_iff seed_table_def selected_def like_refused_def
        order_by_def order_key_def view_def)

theorem list_messages_sorted_witness:
  "list_messages None seed_table (Some 2) (Some 0) None None None =
     Inr \<lparr>pg_data =
            [\<lparr>v_message_id = Some ''m1'', v_from = ''+111'', v_to = ''+999'',
              v_ts = ''2025-01-01T10:00:00Z'', v_text = Some ''Oldest''\<rparr>,
             \<lparr>v_message_id = Some ''m2'', v_from = ''+111'', v_to = ''+999'',
              v_ts = ''2025-01-02T10:00:00Z'', v_text = Some ''Middle''\<rparr>],
          pg_total = 3, pg_limit = 2, pg_offset = 0\<rparr>
   \<and> sorted_wrt listed_before
        [\<lparr>v_message_id = Some ''m1'', v_from = ''+111'', v_to = ''+999'',
          v_ts = ''2025-01-01T10:00:00Z'', v_text = Some ''Oldest''\<rparr>,
         \<lparr>v_message_id = Some ''m2'', v_from = ''+111'', v_to = ''+999'',
          v_ts = ''2025-01-02T10:00:00Z'', v_text = Some ''Middle''\<rparr>]
   \<and> distinct (map message_id seed_table)
   \<and> list_messages None (rev seed_table) (Some 2) (Some 0) None None None =
       list_messages None seed_table (Some 2) (Some 0) None None None"
proof -
  have d: "distinct (map message_id seed_table)"
    by (simp add: seed_table_def)
  have m: "mset (rev seed_table) = mset seed_table"
    by simp
  show ?thesis
    using list_messages_sorted [OF seed_page_two] d m seed_page_two
    by (simp del: sorted_wrt.simps)
qed

section \<open>LIKE between two percent signs\<close>

lemma contains_literal_iff: "contains_literal s t \<longleftrightarrow> (\<exists>pre post. t = pre @ s @ post)"
proof (induction t)
  case Nil
  show ?case by simp
next
  case (Cons c cs)
  show ?case
  proof
    assume "contains_literal s (c # cs)"
    then consider "take (length s) (c # cs) = s" | "contains_literal s cs" by auto
    then show "\<exists>pre post. c # cs = pre @ s @ post"
    proof cases
      case 1
      then have "c # cs = [] @ s @ drop (length s) (c # cs)"
        by (metis append_Nil append_take_drop_id)
      then show ?thesis by blast
    next
      case 2
      then obtain pre post where "cs = pre @ s @ post" using Cons.IH by blast
      then have "c # cs = (c # pre) @ s @ post" by simp
      then show ?thesis by blast
    qed
  next
    assume "\<exists>pre post. c # cs = pre @ s @ post"
    then obtain pre post where eq: "c # cs = pre @ s @ post" by blast
    show "contains_literal s (c # cs)"
    proof (cases pre)
      case Nil
      with eq have "take (length s) (c # cs) = s" by simp
      then show ?thesis by simp
    next
      case (Cons a pre')
      with eq have "cs = pre' @ s @ post" by simp
      then show ?thesis using Cons.IH by auto
    qed
  qed
qed

lemma like_from_percent: "like_from ''%'' t"
  by (induction t) simp_all

text \<open>A pattern without wildcards, then \<^verbatim>\<open>%\<close>: the text starts with the pattern, up to case.\<close>

lemma like_from_prefix:
  assumes "CHR ''%'' \<notin> set s" and "CHR ''_'' \<notin> set s"
  shows "like_from (s @ ''%'') t \<longleftrightarrow>
           (\<exists>m post. t = m @ post \<and> map ascii_lower m = map ascii_lower s)"
  using assms
proof (induction s arbitrary: t)
  case Nil
  show ?case by (simp add: like_from_percent)
next
  case (Cons p ps)
  then have p: "p \<noteq> CHR ''%''" "p \<noteq> CHR ''_''" by auto
  show ?case
  proof (cases t)
    case Nil
    with p show ?thesis by simp
  next
    case (Cons c cs)
    have "like_from ((p # ps) @ ''%'') (c # cs) \<longleftrightarrow>
        ascii_lower p = ascii_lower c \<and> like_from (ps @ ''%'') cs"
      using p by (simp add: like_eq_def)
    also have "\<dots> \<longleftrightarrow> ascii_lower p = ascii_lower c
        \<and> (\<exists>m post. cs = m @ post \<and> map ascii_lower m = map ascii_lower ps)"
      using Cons.IH Cons.prems by simp
    also have "\<dots> \<longleftrightarrow>
        (\<exists>m post. c # cs = m @ post \<and> map ascii_lower m = map ascii_lower (p # ps))"
    proof
      assume "ascii_lower p = ascii_lower c
        \<and> (\<exists>m post. cs = m @ post \<and> map ascii_lower m = map ascii_lower ps)"
      then obtain m post where "ascii_lower p = ascii_lower c" "cs = m @ post"
        "map ascii_lower m = map ascii_lower ps" by blast
      then have "c # cs = (c # m) @ post \<and> map ascii_lower (c # m) = map ascii_lower (p # ps)"
        by simp
      then show "\<exists>m post. c # cs = m @ post \<and> map ascii_lower m = map ascii_lower (p # ps)"
        by blast
    next
      assume "\<exists>m post. c # cs = m @ post \<and> map ascii_lower m = map ascii_lower (p # ps)"
      then obtain m post where m: "c # cs = m @ post"
        "map ascii_lower m = map ascii_lower (p # ps)" by blast
      then obtain m' where "m = c # m'" by (cases m) auto
      with m show "ascii_lower p = ascii_lower c
        \<and> (\<exists>m post. cs = m @ post \<and> map ascii_lower m = map ascii_lower ps)"
        by auto
    qed
    finally show ?thesis using Cons by simp
  qed
qed

text \<open>\<^verbatim>\<open>%\<close>, then a pattern: the pattern matches from some position of the text on.\<close>

lemma like_from_percent_Cons:
  "like_from (CHR ''%'' # ps) t \<longleftrightarrow> (\<exists>pre rest. t = pre @ rest \<and> like_from ps rest)"
proof (induction t)
  case Nil
  show ?case by simp
next
  case (Cons c cs)
  have "like_from (CHR ''%'' # ps) (c # cs) \<longleftrightarrow>
      like_from ps (c # cs) \<or> (\<exists>pre rest. cs = pre @ rest \<and> like_from ps rest)"
    using Cons.IH by simp
  also have "\<dots> \<longleftrightarrow> (\<exists>pre rest. c # cs = pre @ rest \<and> like_from ps rest)"
    by (auto simp add: Cons_eq_append_conv)
  finally show ?case .
qed

lemma cstr_no_nul: "CHR 0x00 \<notin> set s \<Longrightarrow> cstr s = s"
  by (auto simp add: cstr_def takeWhile_eq_all_conv)

lemma like_contains_nocase:
  assumes "CHR ''%'' \<notin> set s" and "CHR ''_'' \<notin> set s" and "CHR 0x00 \<notin> set s"
  shows "like (''%'' @ s @ ''%'') t \<longleftrightarrow> contains_nocase s t"
proof -
  have "cstr (''%'' @ s @ ''%'') = ''%'' @ s @ ''%''"
    using assms(3) by (intro cstr_no_nul) simp
  then have "like (''%'' @ s @ ''%'') t \<longleftrightarrow>
      (\<exists>pre rest. cstr t = pre @ rest \<and> like_from (s @ ''%'') rest)"
    by (simp add: like_def like_from_percent_Cons)
  also have "\<dots> \<longleftrightarrow> (\<exists>pre m post. cstr t = pre @ m @ post
      \<and> map ascii_lower m = map ascii_lower s)"
    using like_from_prefix [OF assms(1,2)] by auto
  also have "\<dots> \<longleftrightarrow> (\<exists>pre' post'. map ascii_lower (cstr t)
      = pre' @ map ascii_lower s @ post')"
  proof
    assume "\<exists>pre m post. cstr t = pre @ m @ post \<and> map ascii_lower m = map ascii_lower s"
    then obtain pre m post where "cstr t = pre @ m @ post"
      "map ascii_lower m = map ascii_lower s" by blast
    then have "map ascii_lower (cstr t)
        = map ascii_lower pre @ map ascii_lower s @ map ascii_lower post"
      by simp
    then show "\<exists>pre' post'. map ascii_lower (cstr t) = pre' @ map ascii_lower s @ post'"
      by blast
  next
    assume "\<exists>pre' post'. map ascii_lower (cstr t) = pre' @ map ascii_lower s @ post'"
    then obtain pre' post' where "map ascii_lower (cstr t) = pre' @ map ascii_lower s @ post'"
      by blast
    then have "\<exists>pre rest. cstr t = pre @ rest \<and> pre' = map ascii_lower pre
        \<and> map ascii_lower s @ post' = map ascii_lower rest"
      by (simp only: map_eq_append_conv)
    then obtain pre rest where 1: "cstr t = pre @ rest"
      "map ascii_lower rest = map ascii_lower s @ post'"
      by metis
    from 1(2) have "\<exists>m post. rest = m @ post \<and> map ascii_lower s = map ascii_lower m
        \<and> post' = map ascii_lower post"
      by (simp only: map_eq_append_conv)
    then obtain m post where "rest = m @ post" "map ascii_lower m = map ascii_lower s"
      by metis
    with 1 show "\<exists>pre m post. cstr t = pre @ m @ post \<and> map ascii_lower m = map ascii_lower s"
      by blast
  qed
  finally show ?thesis by (simp add: contains_nocase_def contains_literal_iff)
qed

section \<open>Listing: the rows of a page\<close>

lemma set_order_by [simp]: "set (order_by rows) = set rows"
  by (simp add: order_by_def)

lemma length_order_by [simp]: "length (order_by rows) = length rows"
  by (simp add: order_by_def)

lemma mset_order_by [simp]: "mset (order_by rows) = mset rows"
  by (simp add: order_by_def)

lemma page_rows_subset:
  "set (take n (drop k (order_by (filter P tbl)))) \<subseteq> {r \<in> set tbl. P r}"
proof -
  have "set (take n (drop k (order_by (filter P tbl)))) \<subseteq> set (order_by (filter P tbl))"
    by (meson set_take_subset set_drop_subset subset_trans)
  then show ?thesis by auto
qed

lemma page_complete:
  assumes "length (filter P tbl) \<le> n"
  shows "mset (map view (take n (drop 0 (order_by (filter P tbl))))) = mset (map view (filter P tbl))"
  using assms by simp

text \<open>
  The first page holds the earliest rows: a selected row that is not on it is not
  listed before any row that is.
\<close>

lemma first_page_earliest:
  assumes "r \<in> set rows" and "r \<notin> set (take n (order_by rows))"
    and "r' \<in> set (take n (order_by rows))"
  shows "order_key r' \<le> order_key r"
proof -
  have "sorted (map order_key (take n (order_by rows)) @ map order_key (drop n (order_by rows)))"
    by (metis append_take_drop_id map_append sorted_order_by)
  then have "\<forall>x \<in> set (map order_key (take n (order_by rows))).
      \<forall>y \<in> set (map order_key (drop n (order_by rows))). x \<le> y"
    by (simp only: sorted_append) simp
  then have "\<forall>x \<in> set (take n (order_by rows)). \<forall>y \<in> set (drop n (order_by rows)).
      order_key x \<le> order_key y"
    by simp
  moreover have "r \<in> set (drop n (order_by rows))"
    using assms(1,2) by (metis Un_iff append_take_drop_id set_append set_order_by)
  ultimately show ?thesis using assms(3) by blast
qed

lemma order_key_le_ts: "order_key r' \<le> order_key r \<Longrightarrow> ts r' \<le> ts r"
  by (auto simp add: order_key_le)

lemma v_ts_view [simp]: "v_ts (view r) = ts r"
  by (simp add: view_def)

lemma v_from_view [simp]: "v_from (view r) = from_msisdn r"
  by (simp add: view_def)

lemma v_text_view [simp]: "v_text (view r) = text_col r"
  by (simp add: view_def)

lemma sorted_ts_page: "sorted (map v_ts (map view (take n (drop k (order_by rows)))))"
proof -
  have "sorted_wrt (\<lambda>r r'. ts r \<le> ts r') (take n (drop k (order_by rows)))"
    using sorted_wrt_page_rows [of n k rows]
    by (rule sorted_wrt_mono_rel [rotated]) (rule order_key_le_ts)
  then have "sorted (map ts (take n (drop k (order_by rows))))"
    by (simp only: sorted_map)
  moreover have "map v_ts (map view (take n (drop k (order_by rows))))
      = map ts (take n (drop k (order_by rows)))"
    by simp
  ultimately show ?thesis by (simp only:)
qed

lemma selected_from:
  "x \<noteq> [] \<Longrightarrow> selected (Some x) since q r \<longleftrightarrow> from_msisdn r = x \<and> selected None since q r"
  by (simp add: selected_def)

lemma selected_since:
  "selected from_param (Some t) q r \<Longrightarrow> t \<le> ts r"
  by (auto simp add: selected_def)

lemma selected_text:
  assumes "s \<noteq> []" and "CHR ''%'' \<notin> set s" and "CHR ''_'' \<notin> set s" and "CHR 0x00 \<notin> set s"
  shows "selected from_param since (Some s) r \<longleftrightarrow>
           selected from_param since None r \<and> text_contains_nocase s r"
  using assms like_contains_nocase [OF assms(2,3,4)]
  by (simp add: selected_def text_contains_nocase_def split: option.splits)

lemma selected_from_only:
  "x \<noteq> [] \<Longrightarrow> selected (Some x) None None = (\<lambda>r. from_msisdn r = x)"
  by (simp add: selected_def fun_eq_iff)

section \<open>Listing: empty parameters\<close>

text \<open>A parameter that is empty selects the rows that the absent parameter selects.\<close>

lemma selected_empty:
  "selected (Some []) since q = selected None since q"
  "selected from_param (Some []) q = selected from_param None q"
  "selected from_param since (Some []) = selected from_param since None"
  by (simp_all add: selected_def fun_eq_iff)

lemma selected_none: "selected None None None = (\<lambda>r. True)"
  by (simp add: selected_def fun_eq_iff)

text \<open>What a returned page holds, for the rows \<open>P\<close> that the query selects.\<close>

lemma list_messages_returns:
  assumes ok: "list_messages flt tbl limit_param offset_param from_param since q = Inr pg"
    and sel: "selected from_param since q = P"
  shows "pg_total pg = length (filter P tbl)
       \<and> set (pg_data pg) \<subseteq> view ` {r \<in> set tbl. P r}
       \<and> (pg_offset pg = 0 \<and> int (pg_total pg) \<le> pg_limit pg \<longrightarrow>
             mset (pg_data pg) = mset (map view (filter P tbl)))"
proof (intro conjI impI)
  let ?n = "nat (pg_limit pg)" and ?k = "nat (pg_offset pg)"
  let ?rows = "take ?n (drop ?k (order_by (filter P tbl)))"
  have data: "pg_data pg = map view ?rows"
    and total: "pg_total pg = length (filter P tbl)"
    using list_messages_page [OF ok] unfolding sel by simp_all
  show "pg_total pg = length (filter P tbl)"
    by (rule total)
  have "set ?rows \<subseteq> {r \<in> set tbl. P r}"
    by (rule page_rows_subset)
  then show "set (pg_data pg) \<subseteq> view ` {r \<in> set tbl. P r}"
    by (auto simp add: data)
  assume a: "pg_offset pg = 0 \<and> int (pg_total pg) \<le> pg_limit pg"
  then have "length (filter P tbl) \<le> ?n" using total by linarith
  then show "mset (pg_data pg) = mset (map view (filter P tbl))"
    using a page_complete [of P tbl ?n] by (simp add: data)
qed

lemma seed_page_since_only:
  "list_messages None seed_table None None (Some []) (Some ''2025-01-02T00:00:00Z'') (Some [])
     = Inr \<lparr>pg_data =
              [\<lparr>v_message_id = Some ''m2'', v_from = ''+111'', v_to = ''+999'',
                v_ts = ''2025-01-02T10:00:00Z'', v_text = Some ''Middle''\<rparr>,
               \<lparr>v_message_id = Some ''m3'', v_from = ''+222'', v_to = ''+999'',
                v_ts = ''2025-01-03T10:00:00Z'', v_text = Some ''Newest''\<rparr>],
            pg_total = 2, pg_limit = 50, pg_offset = 0\<rparr>"
  by (simp add: list_messages_Inr_iff seed_table_def selected_def like_refused_def
        order_by_def order_key_def view_def)

lemma seed_page_sender_since:
  "list_messages None seed_table None None (Some ''+222'') (Some ''2025-01-02T00:00:00Z'')
       (Some [])
     = Inr \<lparr>pg_data =
              [\<lparr>v_message_id = Some ''m3'', v_from = ''+222'', v_to = ''+999'',
                v_ts = ''2025-01-03T10:00:00Z'', v_text = Some ''Newest''\<rparr>],
            pg_total = 1, pg_limit = 50, pg_offset = 0\<rparr>"
  by (simp add: list_messages_Inr_iff seed_table_def selected_def like_refused_def
        order_by_def order_key_def view_def)

text \<open>
  C10. An empty \<^verbatim>\<open>from\<close>, \<^verbatim>\<open>since\<close> or \<^verbatim>\<open>q\<close> behaves as the absent parameter: the call
  with the empty value is the call without the parameter, whatever the table, the other
  parameters and the fault of the engine; its filter is not applied, so that a page
  returned for it counts in \<^verbatim>\<open>total\<close> the rows that the remaining filters select, holds
  none but them, and holds them all when it starts at offset 0 and is long enough. With
  all three empty the total is the number of stored rows and such a page holds every row;
  with \<^verbatim>\<open>since\<close> and \<^verbatim>\<open>q\<close> empty and a sender given, the total is the number of rows of
  that sender.
\<close>

theorem list_messages_empty_parameter:
  "list_messages flt tbl limit_param offset_param (Some []) since q
     = list_messages flt tbl limit_param offset_param None since q
   \<and> list_messages flt tbl limit_param offset_param from_param (Some []) q
     = list_messages flt tbl limit_param offset_param from_param None q
   \<and> list_messages flt tbl limit_param offset_param from_param since (Some [])
     = list_messages flt tbl limit_param offset_param from_param since None
   \<and> (\<forall>pg. list_messages flt tbl limit_param offset_param (Some []) since q = Inr pg \<longrightarrow>
         pg_total pg = length (filter (selected None since q) tbl)
         \<and> set (pg_data pg) \<subseteq> view ` {r \<in> set tbl. selected None since q r}
         \<and> (pg_offset pg = 0 \<and> int (pg_total pg) \<le> pg_limit pg \<longrightarrow>
               mset (pg_data pg) = mset (map view (filter (selected None since q) tbl))))
   \<and> (\<forall>pg. list_messages flt tbl limit_param offset_param from_param (Some []) q = Inr pg \<longrightarrow>
         pg_total pg = length (filter (selected from_param None q) tbl)
         \<and> set (pg_data pg) \<subseteq> view ` {r \<in> set tbl. selected from_param None q r}
         \<and> (pg_offset pg = 0 \<and> int (pg_total pg) \<le> pg_limit pg \<longrightarrow>
               mset (pg_data pg) = mset (map view (filter (selected from_param None q) tbl))))
   \<and> (\<forall>pg. list_messages flt tbl limit_param offset_param from_param since (Some []) = Inr pg
         \<longrightarrow>
         pg_total pg = length (filter (selected from_param since None) tbl)
         \<and> set (pg_data pg) \<subseteq> view ` {r \<in> set tbl. selected from_param since None r}
         \<and> (pg_offset pg = 0 \<and> int (pg_total pg) \<le> pg_limit pg \<longrightarrow>
               mset (pg_data pg)
                 = mset (map view (filter (selected from_param since None) tbl))))
   \<and> (\<forall>pg. list_messages flt tbl limit_param offset_param (Some []) (Some []) (Some [])
              = Inr pg \<longrightarrow>
         pg_total pg = length tbl
         \<and> (pg_offset pg = 0 \<and> int (length tbl) \<le> pg_limit pg \<longrightarrow>
               mset (pg_data pg) = mset (map view tbl)))
   \<and> (\<forall>pg x. x \<noteq> []
         \<and> list_messages flt tbl limit_param offset_param (Some x) (Some []) (Some [])
              = Inr pg \<longrightarrow>
         pg_total pg = length (filter (\<lambda>r. from_msisdn r = x) tbl)
         \<and> set (pg_data pg) \<subseteq> view ` {r \<in> set tbl. from_msisdn r = x})"
proof (intro conjI)
  show "list_messages flt tbl limit_param offset_param (Some []) since q
      = list_messages flt tbl limit_param offset_param None since q"
    by (simp only: list_messages_def build_where_empty)
  show "list_messages flt tbl limit_param offset_param from_param (Some []) q
      = list_messages flt tbl limit_param offset_param from_param None q"
    by (simp only: list_messages_def build_where_empty)
  show "list_messages flt tbl limit_param offset_param from_param since (Some [])
      = list_messages flt tbl limit_param offset_param from_param since None"
    by (simp only: list_messages_def build_where_empty)
  show "\<forall>pg. list_messages flt tbl limit_param offset_param (Some []) since q = Inr pg \<longrightarrow>
      pg_total pg = length (filter (selected None since q) tbl)
      \<and> set (pg_data pg) \<subseteq> view ` {r \<in> set tbl. selected None since q r}
      \<and> (pg_offset pg = 0 \<and> int (pg_total pg) \<le> pg_limit pg \<longrightarrow>
            mset (pg_data pg) = mset (map view (filter (selected None since q) tbl)))"
    using list_messages_returns [OF _ selected_empty(1)] by blast
  show "\<forall>pg. list_messages flt tbl limit_param offset_param from_param (Some []) q = Inr pg \<longrightarrow>
      pg_total pg = length (filter (selected from_param None q) tbl)
      \<and> set (pg_data pg) \<subseteq> view ` {r \<in> set tbl. selected from_param None q r}
      \<and> (pg_offset pg = 0 \<and> int (pg_total pg) \<le> pg_limit pg \<longrightarrow>
            mset (pg_data pg) = mset (map view (filter (selected from_param None q) tbl)))"
    using list_messages_returns [OF _ selected_empty(2)] by blast
  show "\<forall>pg. list_messages flt tbl limit_param offset_param from_param since (Some []) = Inr pg
      \<longrightarrow>
      pg_total pg = length (filter (selected from_param since None) tbl)
      \<and> set (pg_data pg) \<subseteq> view ` {r \<in> set tbl. selected from_param since None r}
      \<and> (pg_offset pg = 0 \<and> int (pg_total pg) \<le> pg_limit pg \<longrightarrow>
            mset (pg_data pg)
              = mset (map view (filter (selected from_param since None) tbl)))"
    using list_messages_returns [OF _ selected_empty(3)] by blast
  have all: "selected (Some []) (Some []) (Some []) = (\<lambda>r. True)"
    by (simp add: selected_empty selected_none)
  show "\<forall>pg. list_messages flt tbl limit_param offset_param (Some []) (Some []) (Some [])
           = Inr pg \<longrightarrow>
      pg_total pg = length tbl
      \<and> (pg_offset pg = 0 \<and> int (length tbl) \<le> pg_limit pg \<longrightarrow>
            mset (pg_data pg) = mset (map view tbl))"
  proof (intro allI impI)
    fix pg
    assume ok: "list_messages flt tbl limit_param offset_param (Some []) (Some []) (Some [])
      = Inr pg"
    show "pg_total pg = length tbl
      \<and> (pg_offset pg = 0 \<and> int (length tbl) \<le> pg_limit pg \<longrightarrow>
            mset (pg_data pg) = mset (map view tbl))"
      using list_messages_returns [OF ok all] by simp
  qed
  show "\<forall>pg x. x \<noteq> []
      \<and> list_messages flt tbl limit_param offset_param (Some x) (Some []) (Some [])
           = Inr pg \<longrightarrow>
      pg_total pg = length (filter (\<lambda>r. from_msisdn r = x) tbl)
      \<and> set (pg_data pg) \<subseteq> view ` {r \<in> set tbl. from_msisdn r = x}"
  proof (intro allI impI)
    fix pg x
    assume a: "x \<noteq> []
      \<and> list_messages flt tbl limit_param offset_param (Some x) (Some []) (Some [])
           = Inr pg"
    then have sel: "selected (Some x) (Some []) (Some []) = (\<lambda>r. from_msisdn r = x)"
      by (simp add: selected_empty selected_from_only)
    from a have ok: "list_messages flt tbl limit_param offset_param (Some x) (Some [])
      (Some []) = Inr pg"
      by simp
    show "pg_total pg = length (filter (\<lambda>r. from_msisdn r = x) tbl)
      \<and> set (pg_data pg) \<subseteq> view ` {r \<in> set tbl. from_msisdn r = x}"
      using list_messages_returns [OF ok sel] by simp
  qed
qed

text \<open>
  On the three rows of the test suite, with \<^verbatim>\<open>since\<close> at the second day: an empty
  \<^verbatim>\<open>from\<close> and an empty \<^verbatim>\<open>q\<close> leave the two rows that \<^verbatim>\<open>since\<close> selects, where the sender
  \<^verbatim>\<open>+222\<close> in the place of the empty \<^verbatim>\<open>from\<close> leaves one.
\<close>

theorem list_messages_empty_parameter_witness:
  "list_messages None seed_table None None (Some []) (Some ''2025-01-02T00:00:00Z'') (Some [])
     = Inr \<lparr>pg_data =
              [\<lparr>v_message_id = Some ''m2'', v_from = ''+111'', v_to = ''+999'',
                v_ts = ''2025-01-02T10:00:00Z'', v_text = Some ''Middle''\<rparr>,
               \<lparr>v_message_id = Some ''m3'', v_from = ''+222'', v_to = ''+999'',
                v_ts = ''2025-01-03T10:00:00Z'', v_text = Some ''Newest''\<rparr>],
            pg_total = 2, pg_limit = 50, pg_offset = 0\<rparr>
   \<and> list_messages None seed_table None None None (Some ''2025-01-02T00:00:00Z'') None
     = Inr \<lparr>pg_data =
              [\<lparr>v_message_id = Some ''m2'', v_from = ''+111'', v_to = ''+999'',
                v_ts = ''2025-01-02T10:00:00Z'', v_text = Some ''Middle''\<rparr>,
               \<lparr>v_message_id = Some ''m3'', v_from = ''+222'', v_to = ''+999'',
                v_ts = ''2025-01-03T10:00:00Z'', v_text = Some ''Newest''\<rparr>],
            pg_total = 2, pg_limit = 50, pg_offset = 0\<rparr>
   \<and> length (filter (selected None (Some ''2025-01-02T00:00:00Z'') (Some [])) seed_table) = 2
   \<and> list_messages None seed_table None None (Some ''+222'') (Some ''2025-01-02T00:00:00Z'')
         (Some [])
     = Inr \<lparr>pg_data =
              [\<lparr>v_message_id = Some ''m3'', v_from = ''+222'', v_to = ''+999'',
                v_ts = ''2025-01-03T10:00:00Z'', v_text = Some ''Newest''\<rparr>],
            pg_total = 1, pg_limit = 50, pg_offset = 0\<rparr>"
proof -
  let ?t = "Some ''2025-01-02T00:00:00Z''"
  note c10 = list_messages_empty_parameter [of None seed_table None None ?t "Some []" None]
  have absent: "list_messages None seed_table None None None ?t None
      = list_messages None seed_table None None (Some []) ?t (Some [])"
    using c10 list_messages_empty_parameter [of None seed_table None None ?t None None]
    by simp
  have total: "length (filter (selected None ?t (Some [])) seed_table) = 2"
    using c10 seed_page_since_only by simp
  show ?thesis
    using seed_page_since_only seed_page_sender_since absent total by (simp only:)
qed
section \<open>Listing: the filters\<close>

text \<open>
  C7, as the specification states it, fails for the empty sender. The handler guards each filter
  with \<^verbatim>\<open>if from_:\<close>, so \<^verbatim>\<open>from=\<close> selects every row: on the three rows of the test
  suite it returns all three, none of which has the sender \<^verbatim>\<open>""\<close>.
\<close>

theorem list_messages_empty_from_counterexample:
  "list_messages None seed_table None None (Some []) None None =
     Inr \<lparr>pg_data =
            [\<lparr>v_message_id = Some ''m1'', v_from = ''+111'', v_to = ''+999'',
              v_ts = ''2025-01-01T10:00:00Z'', v_text = Some ''Oldest''\<rparr>,
             \<lparr>v_message_id = Some ''m2'', v_from = ''+111'', v_to = ''+999'',
              v_ts = ''2025-01-02T10:00:00Z'', v_text = Some ''Middle''\<rparr>,
             \<lparr>v_message_id = Some ''m3'', v_from = ''+222'', v_to = ''+999'',
              v_ts = ''2025-01-03T10:00:00Z'', v_text = Some ''Newest''\<rparr>],
          pg_total = 3, pg_limit = 50, pg_offset = 0\<rparr>
   \<and> map from_msisdn seed_table = [''+111'', ''+111'', ''+222'']"
  by (simp add: list_messages_Inr_iff seed_table_def selected_def like_refused_def
        order_by_def order_key_def view_def)

text \<open>
  C7, amended: the sender is not empty. For every page that \<^verbatim>\<open>GET /messages\<close> returns:
  with \<^verbatim>\<open>from=x\<close>, \<^verbatim>\<open>x\<close> not empty, every row of the page has the sender \<^verbatim>\<open>x\<close>, and with
  no other filter the total is the number of stored rows with that sender; with
  \<^verbatim>\<open>since=t\<close> no row of the page has a \<^verbatim>\<open>ts\<close> before \<^verbatim>\<open>t\<close>; the page holds selected
  rows only, the total counts all of them, and a page from offset 0 that is long enough
  holds them all; a page from offset 0 holds as many rows as the limit allows, in
  ascending order of \<^verbatim>\<open>ts\<close>, and every selected row that is not on it has a \<^verbatim>\<open>ts\<close> not
  before theirs (so with \<^verbatim>\<open>limit=2\<close> it holds the two earliest).
\<close>

theorem list_messages_filters:
  assumes ok: "list_messages flt tbl limit_param offset_param from_param since q = Inr pg"
  shows "(\<forall>x. from_param = Some x \<and> x \<noteq> [] \<longrightarrow> (\<forall>m \<in> set (pg_data pg). v_from m = x))
       \<and> (\<forall>x. from_param = Some x \<and> x \<noteq> [] \<and> since = None \<and> q = None \<longrightarrow>
             pg_total pg = length (filter (\<lambda>r. from_msisdn r = x) tbl))
       \<and> (\<forall>t. since = Some t \<longrightarrow> (\<forall>m \<in> set (pg_data pg). t \<le> v_ts m))
       \<and> set (pg_data pg) \<subseteq> view ` {r \<in> set tbl. selected from_param since q r}
       \<and> pg_total pg = length (filter (selected from_param since q) tbl)
       \<and> (pg_offset pg = 0 \<and> int (pg_total pg) \<le> pg_limit pg \<longrightarrow>
             mset (pg_data pg) = mset (map view (filter (selected from_param since q) tbl)))
       \<and> (pg_offset pg = 0 \<longrightarrow>
             length (pg_data pg) = min (nat (pg_limit pg)) (pg_total pg)
             \<and> sorted (map v_ts (pg_data pg))
             \<and> (\<forall>r \<in> set tbl. selected from_param since q r \<and> view r \<notin> set (pg_data pg) \<longrightarrow>
                   (\<forall>m \<in> set (pg_data pg). v_ts m \<le> ts r)))"
proof -
  let ?sel = "selected from_param since q"
  let ?n = "nat (pg_limit pg)" and ?k = "nat (pg_offset pg)"
  let ?rows = "take ?n (drop ?k (order_by (filter ?sel tbl)))"
  have data: "pg_data pg = map view ?rows"
    and total: "pg_total pg = length (filter ?sel tbl)"
    using list_messages_page [OF ok] by simp_all
  have rows: "set ?rows \<subseteq> {r \<in> set tbl. ?sel r}"
    by (rule page_rows_subset)
  have 1: "\<forall>x. from_param = Some x \<and> x \<noteq> [] \<longrightarrow> (\<forall>m \<in> set (pg_data pg). v_from m = x)"
    using rows by (auto simp add: data selected_from)
  have 2: "\<forall>x. from_param = Some x \<and> x \<noteq> [] \<and> since = None \<and> q = None \<longrightarrow>
      pg_total pg = length (filter (\<lambda>r. from_msisdn r = x) tbl)"
    by (auto simp add: total selected_from_only)
  have 3: "\<forall>t. since = Some t \<longrightarrow> (\<forall>m \<in> set (pg_data pg). t \<le> v_ts m)"
    using rows by (auto simp add: data dest: selected_since)
  have 4: "set (pg_data pg) \<subseteq> view ` {r \<in> set tbl. ?sel r}"
    using rows by (auto simp add: data)
  have 5: "pg_offset pg = 0 \<and> int (pg_total pg) \<le> pg_limit pg \<longrightarrow>
      mset (pg_data pg) = mset (map view (filter ?sel tbl))"
  proof
    assume a: "pg_offset pg = 0 \<and> int (pg_total pg) \<le> pg_limit pg"
    then have "length (filter ?sel tbl) \<le> ?n" using total by linarith
    then show "mset (pg_data pg) = mset (map view (filter ?sel tbl))"
      using a page_complete [of ?sel tbl ?n] by (simp add: data)
  qed
  have 6: "pg_offset pg = 0 \<longrightarrow>
      length (pg_data pg) = min (nat (pg_limit pg)) (pg_total pg)
      \<and> sorted (map v_ts (pg_data pg))
      \<and> (\<forall>r \<in> set tbl. ?sel r \<and> view r \<notin> set (pg_data pg) \<longrightarrow>
            (\<forall>m \<in> set (pg_data pg). v_ts m \<le> ts r))"
  proof
    assume z: "pg_offset pg = 0"
    then have first_page: "?rows = take ?n (order_by (filter ?sel tbl))" by simp
    have len: "length (pg_data pg) = min ?n (pg_total pg)"
      by (simp add: data total z)
    have srt: "sorted (map v_ts (pg_data pg))"
      unfolding data by (rule sorted_ts_page)
    have early: "\<forall>r \<in> set tbl. ?sel r \<and> view r \<notin> set (pg_data pg) \<longrightarrow>
        (\<forall>m \<in> set (pg_data pg). v_ts m \<le> ts r)"
    proof (intro ballI impI)
      fix r m
      assume r: "r \<in> set tbl" "?sel r \<and> view r \<notin> set (pg_data pg)"
        and m: "m \<in> set (pg_data pg)"
      from m obtain r' where r': "r' \<in> set ?rows" "m = view r'"
        by (auto simp add: data)
      from r have "r \<in> set (filter ?sel tbl)" "r \<notin> set ?rows"
        by (auto simp add: data)
      then have "order_key r' \<le> order_key r"
        using r'(1) unfolding first_page by (rule first_page_earliest)
      then show "v_ts m \<le> ts r"
        using r'(2) by (simp add: order_key_le_ts)
    qed
    from len srt early show "length (pg_data pg) = min (nat (pg_limit pg)) (pg_total pg)
      \<and> sorted (map v_ts (pg_data pg))
      \<and> (\<forall>r \<in> set tbl. ?sel r \<and> view r \<notin> set (pg_data pg) \<longrightarrow>
            (\<forall>m \<in> set (pg_data pg). v_ts m \<le> ts r))"
      by blast
  qed
  from 1 2 3 4 total 5 6 show ?thesis by blast
qed


lemma seed_page_from_since:
  "list_messages None seed_table (Some 2) (Some 0) (Some ''+111'')
       (Some ''2025-01-01T00:00:00Z'') None =
     Inr \<lparr>pg_data =
            [\<lparr>v_message_id = Some ''m1'', v_from = ''+111'', v_to = ''+999'',
              v_ts = ''2025-01-01T10:00:00Z'', v_text = Some ''Oldest''\<rparr>,
             \<lparr>v_message_id = Some ''m2'', v_from = ''+111'', v_to = ''+999'',
              v_ts = ''2025-01-02T10:00:00Z'', v_text = Some ''Middle''\<rparr>],
          pg_total = 2, pg_limit = 2, pg_offset = 0\<rparr>"
  by (simp add: list_messages_Inr_iff seed_table_def selected_def like_refused_def
        order_by_def order_key_def view_def)

theorem list_messages_filters_witness:
  "list_messages None seed_table (Some 2) (Some 0) (Some ''+111'')
       (Some ''2025-01-01T00:00:00Z'') None =
     Inr \<lparr>pg_data =
            [\<lparr>v_message_id = Some ''m1'', v_from = ''+111'', v_to = ''+999'',
              v_ts = ''2025-01-01T10:00:00Z'', v_text = Some ''Oldest''\<rparr>,
             \<lparr>v_message_id = Some ''m2'', v_from = ''+111'', v_to = ''+999'',
              v_ts = ''2025-01-02T10:00:00Z'', v_text = Some ''Middle''\<rparr>],
          pg_total = 2, pg_limit = 2, pg_offset = 0\<rparr>
   \<and> list_all (\<lambda>m. v_from m = ''+111'')
        [\<lparr>v_message_id = Some ''m1'', v_from = ''+111'', v_to = ''+999'',
          v_ts = ''2025-01-01T10:00:00Z'', v_text = Some ''Oldest''\<rparr>,
         \<lparr>v_message_id = Some ''m2'', v_from = ''+111'', v_to = ''+999'',
          v_ts = ''2025-01-02T10:00:00Z'', v_text = Some ''Middle''\<rparr>]
   \<and> list_all (\<lambda>m. ''2025-01-01T00:00:00Z'' \<le> v_ts m)
        [\<lparr>v_message_id = Some ''m1'', v_from = ''+111'', v_to = ''+999'',
          v_ts = ''2025-01-01T10:00:00Z'', v_text = Some ''Oldest''\<rparr>,
         \<lparr>v_message_id = Some ''m2'', v_from = ''+111'', v_to = ''+999'',
          v_ts = ''2025-01-02T10:00:00Z'', v_text = Some ''Middle''\<rparr>]
   \<and> length (filter (selected (Some ''+111'') (Some ''2025-01-01T00:00:00Z'') None) seed_table) = 2"
  using list_messages_filters [OF seed_page_from_since] seed_page_from_since
  by (simp add: list_all_iff)

section \<open>Listing: the text filter\<close>

lemma like_old:
  "like ''%old%'' ''Oldest''" "\<not> like ''%old%'' ''Middle''" "\<not> like ''%old%'' ''Newest''"
  by code_simp+

lemma like_underscore:
  "like ''%_%'' ''Oldest''" "like ''%_%'' ''Middle''" "like ''%_%'' ''Newest''"
  by code_simp+

lemma seed_no_literal:
  "\<not> contains_literal ''old'' ''Oldest''"
  "\<not> contains_literal ''_'' ''Oldest''" "\<not> contains_literal ''_'' ''Middle''"
  "\<not> contains_literal ''_'' ''Newest''"
  by simp_all

lemma seed_page_old:
  "list_messages None seed_table None None None None (Some ''old'') =
     Inr \<lparr>pg_data =
            [\<lparr>v_message_id = Some ''m1'', v_from = ''+111'', v_to = ''+999'',
              v_ts = ''2025-01-01T10:00:00Z'', v_text = Some ''Oldest''\<rparr>],
          pg_total = 1, pg_limit = 50, pg_offset = 0\<rparr>"
  using like_old
  by (simp add: list_messages_Inr_iff seed_table_def selected_def like_refused_def
        order_by_def order_key_def view_def encode_def like_pattern_limit_def)

lemma seed_page_underscore:
  "list_messages None seed_table None None None None (Some ''_'') =
     Inr \<lparr>pg_data =
            [\<lparr>v_message_id = Some ''m1'', v_from = ''+111'', v_to = ''+999'',
              v_ts = ''2025-01-01T10:00:00Z'', v_text = Some ''Oldest''\<rparr>,
             \<lparr>v_message_id = Some ''m2'', v_from = ''+111'', v_to = ''+999'',
              v_ts = ''2025-01-02T10:00:00Z'', v_text = Some ''Middle''\<rparr>,
             \<lparr>v_message_id = Some ''m3'', v_from = ''+222'', v_to = ''+999'',
              v_ts = ''2025-01-03T10:00:00Z'', v_text = Some ''Newest''\<rparr>],
          pg_total = 3, pg_limit = 50, pg_offset = 0\<rparr>"
  using like_underscore
  by (simp add: list_messages_Inr_iff seed_table_def selected_def like_refused_def
        order_by_def order_key_def view_def encode_def like_pattern_limit_def)

text \<open>
  C8, as the specification states it, fails: the filter is SQLite's \<^verbatim>\<open>LIKE\<close>, not a literal
  substring test. On the three rows of the test suite, \<^verbatim>\<open>q=old\<close> returns the row whose
  text is \<^verbatim>\<open>Oldest\<close>, which does not contain \<^verbatim>\<open>old\<close>, and \<^verbatim>\<open>q=_\<close> returns all
  three rows, none of which contains an underscore.
\<close>

theorem list_messages_like_counterexample:
  "list_messages None seed_table None None None None (Some ''old'') =
     Inr \<lparr>pg_data =
            [\<lparr>v_message_id = Some ''m1'', v_from = ''+111'', v_to = ''+999'',
              v_ts = ''2025-01-01T10:00:00Z'', v_text = Some ''Oldest''\<rparr>],
          pg_total = 1, pg_limit = 50, pg_offset = 0\<rparr>
   \<and> \<not> contains_literal ''old'' ''Oldest''
   \<and> list_messages None seed_table None None None None (Some ''_'') =
     Inr \<lparr>pg_data =
            [\<lparr>v_message_id = Some ''m1'', v_from = ''+111'', v_to = ''+999'',
              v_ts = ''2025-01-01T10:00:00Z'', v_text = Some ''Oldest''\<rparr>,
             \<lparr>v_message_id = Some ''m2'', v_from = ''+111'', v_to = ''+999'',
              v_ts = ''2025-01-02T10:00:00Z'', v_text = Some ''Middle''\<rparr>,
             \<lparr>v_message_id = Some ''m3'', v_from = ''+222'', v_to = ''+999'',
              v_ts = ''2025-01-03T10:00:00Z'', v_text = Some ''Newest''\<rparr>],
          pg_total = 3, pg_limit = 50, pg_offset = 0\<rparr>
   \<and> \<not> contains_literal ''_'' ''Oldest'' \<and> \<not> contains_literal ''_'' ''Middle''
   \<and> \<not> contains_literal ''_'' ''Newest''"
  using seed_page_old seed_page_underscore seed_no_literal by (simp only: simp_thms)

text \<open>The pattern of 49999 letters between two \<^verbatim>\<open>%\<close> has 50001 bytes.\<close>

lemma length_long_pattern:
  "length (encode (''%'' @ replicate 49999 (CHR ''a'') @ ''%'')) = 50001"
proof -
  have "length (encode ''%'') = 1"
    by (simp add: encode_def)
  moreover have "length (encode (replicate 49999 (CHR ''a''))) = 49999"
    by (rule length_encode_replicate_ascii) simp
  ultimately show ?thesis
    by (simp only: length_encode_append)
qed

text \<open>
  C8, amended: the query has no \<^verbatim>\<open>%\<close>, no \<^verbatim>\<open>_\<close> and no NUL, its pattern (the query between
  two \<^verbatim>\<open>%\<close>) has at most 50000 bytes in UTF-8, and the text contains the query up to the
  case of ASCII letters. For every query \<open>s\<close> without \<^verbatim>\<open>%\<close>, \<^verbatim>\<open>_\<close> and NUL that is not
  empty:

    \<^item> whenever \<^verbatim>\<open>GET /messages\<close> with \<^verbatim>\<open>q=s\<close> returns a page, the rows that it selects are
      exactly the rows, among those that the other filters select, whose text is not NULL
      and contains the query in that sense: the total counts them, the page holds none but
      them, and a page from offset 0 that is long enough holds them all;

    \<^item> it does return a page when the pattern has at most 50000 bytes, the engine reports
      no fault, and \<^verbatim>\<open>limit\<close> and \<^verbatim>\<open>offset\<close> are within their bounds;

    \<^item> with a longer pattern and a stored row that the other filters select, the request
      fails instead: SQLite refuses the pattern, the handler leaves with that error, and
      the answer is 500.
\<close>

theorem list_messages_text_filter:
  assumes s: "s \<noteq> []" "CHR ''%'' \<notin> set s" "CHR ''_'' \<notin> set s" "CHR 0x00 \<notin> set s"
  shows "(\<forall>pg. list_messages flt tbl limit_param offset_param from_param since (Some s) = Inr pg
            \<longrightarrow>
            pg_total pg =
              length (filter (\<lambda>r. selected from_param since None r \<and> text_contains_nocase s r)
                tbl)
            \<and> set (pg_data pg) \<subseteq>
                view ` {r \<in> set tbl. selected from_param since None r
                                        \<and> text_contains_nocase s r}
            \<and> (pg_offset pg = 0 \<and> int (pg_total pg) \<le> pg_limit pg \<longrightarrow>
                  mset (pg_data pg) = mset (map view
                    (filter (\<lambda>r. selected from_param since None r \<and> text_contains_nocase s r)
                      tbl))))
       \<and> (page_request limit_param offset_param
            \<and> length (encode (''%'' @ s @ ''%'')) \<le> like_pattern_limit
          \<longrightarrow> (\<exists>pg. list_messages None tbl limit_param offset_param from_param since (Some s)
                       = Inr pg))
       \<and> (page_request limit_param offset_param
            \<and> like_pattern_limit < length (encode (''%'' @ s @ ''%''))
            \<and> (\<exists>r \<in> set tbl. selected from_param since None r)
          \<longrightarrow> list_messages None tbl limit_param offset_param from_param since (Some s)
                = Inl (SqliteError pattern_too_complex))"
proof (intro conjI allI impI)
  fix pg
  assume ok: "list_messages flt tbl limit_param offset_param from_param since (Some s) = Inr pg"
  let ?sel = "\<lambda>r. selected from_param since None r \<and> text_contains_nocase s r"
  have sel: "selected from_param since (Some s) = ?sel"
    using selected_text [OF s] by (simp add: fun_eq_iff)
  let ?n = "nat (pg_limit pg)" and ?k = "nat (pg_offset pg)"
  let ?rows = "take ?n (drop ?k (order_by (filter ?sel tbl)))"
  have data: "pg_data pg = map view ?rows"
    and total: "pg_total pg = length (filter ?sel tbl)"
    using list_messages_page [OF ok] unfolding sel by simp_all
  show "pg_total pg = length (filter ?sel tbl)"
    by (rule total)
  have rows: "set ?rows \<subseteq> {r \<in> set tbl. ?sel r}"
    by (rule page_rows_subset)
  then show "set (pg_data pg) \<subseteq> view ` {r \<in> set tbl. ?sel r}"
    by (auto simp add: data)
  assume a: "pg_offset pg = 0 \<and> int (pg_total pg) \<le> pg_limit pg"
  then have "length (filter ?sel tbl) \<le> ?n" using total by linarith
  then show "mset (pg_data pg) = mset (map view (filter ?sel tbl))"
    using a page_complete [of ?sel tbl ?n] by (simp add: data)
next
  assume a: "page_request limit_param offset_param
    \<and> length (encode (''%'' @ s @ ''%'')) \<le> like_pattern_limit"
  then show "\<exists>pg. list_messages None tbl limit_param offset_param from_param since (Some s)
      = Inr pg"
    by (intro list_messages_total) simp_all
next
  assume a: "page_request limit_param offset_param
    \<and> like_pattern_limit < length (encode (''%'' @ s @ ''%''))
    \<and> (\<exists>r \<in> set tbl. selected from_param since None r)"
  then obtain r where r: "r \<in> set tbl" "selected from_param since None r"
    by blast
  show "list_messages None tbl limit_param offset_param from_param since (Some s)
      = Inl (SqliteError pattern_too_complex)"
    using a s(1) r by (intro list_messages_pattern_too_complex [of _ _ _ r]) simp_all
qed

theorem list_messages_text_filter_witness:
  "list_messages None seed_table None None None None (Some ''old'') =
     Inr \<lparr>pg_data =
            [\<lparr>v_message_id = Some ''m1'', v_from = ''+111'', v_to = ''+999'',
              v_ts = ''2025-01-01T10:00:00Z'', v_text = Some ''Oldest''\<rparr>],
          pg_total = 1, pg_limit = 50, pg_offset = 0\<rparr>
   \<and> ''old'' \<noteq> [] \<and> CHR ''%'' \<notin> set ''old'' \<and> CHR ''_'' \<notin> set ''old''
   \<and> CHR 0x00 \<notin> set ''old''
   \<and> length (filter (\<lambda>r. selected None None None r \<and> text_contains_nocase ''old'' r)
        seed_table) = 1
   \<and> page_request None None
   \<and> like_pattern_limit < length (encode (''%'' @ replicate 49999 (CHR ''a'') @ ''%''))
   \<and> list_messages None seed_table None None None None (Some (replicate 49999 (CHR ''a'')))
       = Inl (SqliteError (OperationalError ''LIKE or GLOB pattern too complex''))"
proof -
  have s: "''old'' \<noteq> []" "CHR ''%'' \<notin> set ''old''" "CHR ''_'' \<notin> set ''old''"
    "CHR 0x00 \<notin> set ''old''"
    by simp_all
  have l: "replicate 49999 (CHR ''a'') \<noteq> []"
    "CHR ''%'' \<notin> set (replicate 49999 (CHR ''a''))"
    "CHR ''_'' \<notin> set (replicate 49999 (CHR ''a''))"
    "CHR 0x00 \<notin> set (replicate 49999 (CHR ''a''))"
    by simp_all
  have p: "page_request None None"
    by (simp add: page_request_def)
  have long: "like_pattern_limit < length (encode (''%'' @ replicate 49999 (CHR ''a'') @ ''%''))"
    unfolding length_long_pattern like_pattern_limit_def by simp
  have row: "\<exists>r \<in> set seed_table. selected None None None r"
    by (auto simp add: seed_table_def selected_def)
  have old: "length (filter (\<lambda>r. selected None None None r \<and> text_contains_nocase ''old'' r)
      seed_table) = 1"
    using list_messages_text_filter [OF s, of None seed_table None None None None] seed_page_old
    by simp
  have refused: "list_messages None seed_table None None None None
      (Some (replicate 49999 (CHR ''a''))) = Inl (SqliteError pattern_too_complex)"
    using list_messages_text_filter [OF l, of None seed_table None None None None] p long row
    by blast
  show ?thesis
    using seed_page_old s old p long refused unfolding pattern_too_complex_def by blast
qed
section \<open>Statistics\<close>

lemma sql_min_eq: "sql_min xs = (if xs = [] then None else Some (Min (set xs)))"
proof (cases xs)
  case Nil
  then show ?thesis by (simp add: sql_min_def)
next
  case (Cons x ys)
  have "fold min ys x = Min (set (x # ys))" by (rule Min.set_eq_fold [symmetric])
  with Cons show ?thesis by (simp add: sql_min_def)
qed

lemma sql_max_eq: "sql_max xs = (if xs = [] then None else Some (Max (set xs)))"
proof (cases xs)
  case Nil
  then show ?thesis by (simp add: sql_max_def)
next
  case (Cons x ys)
  have "fold max ys x = Max (set (x # ys))" by (rule Max.set_eq_fold [symmetric])
  with Cons show ?thesis by (simp add: sql_max_def)
qed

text \<open>The handler returns the statistics whenever the engine reports no fault.\<close>

lemma get_stats_total: "\<exists>st. get_stats None tbl = Inr st"
  by (simp add: get_stats_def)

text \<open>
  C9. In the object that \<^verbatim>\<open>GET /stats\<close> returns, \<^verbatim>\<open>total_messages\<close> is the number of
  stored rows and \<^verbatim>\<open>senders_count\<close> the number of distinct senders; when rows are
  stored, \<^verbatim>\<open>first_message_ts\<close> and \<^verbatim>\<open>last_message_ts\<close> are the least and the greatest
  \<^verbatim>\<open>ts\<close> of the table, and when none is, both are null.
\<close>

theorem get_stats_correct:
  assumes "get_stats flt tbl = Inr st"
  shows "total_messages st = length tbl
       \<and> senders_count st = card (from_msisdn ` set tbl)
       \<and> (tbl \<noteq> [] \<longrightarrow> first_message_ts st = Some (Min (ts ` set tbl))
                        \<and> last_message_ts st = Some (Max (ts ` set tbl)))
       \<and> (tbl = [] \<longrightarrow> first_message_ts st = None \<and> last_message_ts st = None)"
proof -
  from assms have st: "st = \<lparr>total_messages = length tbl,
      senders_count = length (remdups (map from_msisdn tbl)),
      messages_per_sender = senders_query tbl,
      first_message_ts = sql_min (map ts tbl),
      last_message_ts = sql_max (map ts tbl)\<rparr>"
    by (auto simp add: get_stats_def split: option.splits)
  have "length (remdups (map from_msisdn tbl)) = card (from_msisdn ` set tbl)"
    by (simp add: length_remdups_card_conv)
  then show ?thesis
    by (simp add: st sql_min_eq sql_max_eq)
qed

lemma seed_stats:
  "get_stats None seed_table =
     Inr \<lparr>total_messages = 3, senders_count = 2,
          messages_per_sender = [(''+111'', 2), (''+222'', 1)],
          first_message_ts = Some ''2025-01-01T10:00:00Z'',
          last_message_ts = Some ''2025-01-03T10:00:00Z''\<rparr>"
  by code_simp

theorem get_stats_correct_witness:
  "get_stats None seed_table =
     Inr \<lparr>total_messages = 3, senders_count = 2,
          messages_per_sender = [(''+111'', 2), (''+222'', 1)],
          first_message_ts = Some ''2025-01-01T10:00:00Z'',
          last_message_ts = Some ''2025-01-03T10:00:00Z''\<rparr>
   \<and> length seed_table = 3
   \<and> card (from_msisdn ` set seed_table) = 2
   \<and> seed_table \<noteq> []
   \<and> Min (ts ` set seed_table) = ''2025-01-01T10:00:00Z''
   \<and> Max (ts ` set seed_table) = ''2025-01-03T10:00:00Z''"
proof -
  have "seed_table \<noteq> []" by (simp add: seed_table_def)
  then show ?thesis
    using get_stats_correct [OF seed_stats] seed_stats by simp
qed


end
